theory Spec2Isabelle
  imports Main "HOL-Library.Sublist" "HOL-Library.Multiset"
begin

section \<open>The helm command wrapper (util/helm/cmd.go)\<close>

text \<open>
  Go strings are byte sequences; they are modelled as \<^typ>\<open>string\<close> (a list of
  8-bit characters). Both regular expressions of the file consist of ASCII
  characters and of negated one-character classes, so matching byte by byte and
  matching rune by rune give the same replacements.
\<close>

subsection \<open>Escaping commas: \<open>cleanSetParameters\<close>\<close>

abbreviation backslash :: char where
  "backslash \<equiv> CHR 0x5C"

abbreviation comma :: char where
  "comma \<equiv> CHR '',''"

abbreviation space :: char where
  "space \<equiv> CHR '' ''"

text \<open>
  \<^verbatim>\<open>re = regexp.MustCompile(`([^\\]),`)\<close> and
  \<^verbatim>\<open>re.ReplaceAllString(val, `$1\,`)\<close>: the matches are found from left to right and
  do not overlap; a match is one character other than a backslash followed by a
  comma, and it is replaced by that character, a backslash and a comma. After a
  match the search goes on behind the comma; where no match starts, the character
  is copied and the search goes on at the next one.
\<close>

fun cleanSetParameters :: "string \<Rightarrow> string" where
  "cleanSetParameters (c # d # rest) =
     (if c \<noteq> backslash \<and> d = comma
      then c # backslash # comma # cleanSetParameters rest
      else c # cleanSetParameters (d # rest))"
| "cleanSetParameters val = val"

text \<open>
  The transform the specification describes: a backslash is put before every comma
  that is not preceded by a backslash, whatever its position. The first argument
  is the character before the rest of the value, if there is one.
\<close>

fun escape_from :: "char option \<Rightarrow> string \<Rightarrow> string" where
  "escape_from prev [] = []"
| "escape_from prev (c # cs) =
     (if c = comma \<and> prev \<noteq> Some backslash
      then backslash # comma # escape_from (Some c) cs
      else c # escape_from (Some c) cs)"

definition escape_commas :: "string \<Rightarrow> string" where
  "escape_commas val = escape_from None val"

text \<open>Every comma of the value has a backslash right before it.\<close>

fun commas_escaped_from :: "char option \<Rightarrow> string \<Rightarrow> bool" where
  "commas_escaped_from prev [] = True"
| "commas_escaped_from prev (c # cs) =
     ((c = comma \<longrightarrow> prev = Some backslash) \<and> commas_escaped_from (Some c) cs)"

definition commas_escaped :: "string \<Rightarrow> bool" where
  "commas_escaped val = commas_escaped_from None val"

text \<open>No two commas of the value are next to each other.\<close>

fun no_adjacent_commas :: "string \<Rightarrow> bool" where
  "no_adjacent_commas (c # d # rest) =
     (\<not> (c = comma \<and> d = comma) \<and> no_adjacent_commas (d # rest))"
| "no_adjacent_commas val = True"

subsection \<open>Masking credentials: \<open>redactor\<close>\<close>

definition username_flag :: string where
  "username_flag = ''--username''"

definition password_flag :: string where
  "password_flag = ''--password''"

definition redaction_mask :: string where
  "redaction_mask = ''******''"

text \<open>
  \<^verbatim>\<open>regexp.MustCompile("(--username|--password) [^ ]*").ReplaceAllString(text, "$1 ******")\<close>:
  a match starts where the text reads one of the two flags and a space, and runs
  over all following characters other than a space; it is replaced by the flag, a
  space and six asterisks. The search goes on behind the match.
\<close>

function redactor :: "string \<Rightarrow> string" where
  "redactor text =
     (if text = [] then []
      else if prefix (username_flag @ [space]) text
        then username_flag @ [space] @ redaction_mask @
          redactor (dropWhile (\<lambda>c. c \<noteq> space) (drop (length username_flag + 1) text))
      else if prefix (password_flag @ [space]) text
        then password_flag @ [space] @ redaction_mask @
          redactor (dropWhile (\<lambda>c. c \<noteq> space) (drop (length password_flag + 1) text))
      else hd text # redactor (tl text))"
  by pat_completeness auto
termination
proof (relation "measure length")
  show "wf (measure length)" by simp
next
  fix t :: string
  assume "prefix (username_flag @ [space]) t"
  then have "length username_flag + 1 \<le> length t"
    using prefix_length_le by fastforce
  moreover have "length (dropWhile (\<lambda>c. c \<noteq> space) (drop (length username_flag + 1) t))
      \<le> length t - (length username_flag + 1)"
    by (metis length_dropWhile_le length_drop)
  ultimately show "(dropWhile (\<lambda>c. c \<noteq> space) (drop (length username_flag + 1) t), t)
      \<in> measure length"
    by simp
next
  fix t :: string
  assume "prefix (password_flag @ [space]) t"
  then have "length password_flag + 1 \<le> length t"
    using prefix_length_le by fastforce
  moreover have "length (dropWhile (\<lambda>c. c \<noteq> space) (drop (length password_flag + 1) t))
      \<le> length t - (length password_flag + 1)"
    by (metis length_dropWhile_le length_drop)
  ultimately show "(dropWhile (\<lambda>c. c \<noteq> space) (drop (length password_flag + 1) t), t)
      \<in> measure length"
    by simp
next
  fix t :: string
  assume "t \<noteq> []"
  then show "(tl t, t) \<in> measure length"
    by (cases t) simp_all
qed

declare redactor.simps [simp del]



subsection \<open>Sessions, credentials and template options\<close>

text \<open>
  Modelled from the spec: the struct \<^verbatim>\<open>HelmVer\<close> that \<^verbatim>\<open>Cmd\<close> embeds is declared in
  another file of the package. Its fields are the ones this file reads, with the
  types the specification gives the tool profile.
\<close>

record HelmVer =
  binaryName :: string
  initSupported :: bool
  pullCommand :: string
  showCommand :: string
  templateNameArg :: string
  kubeVersionSupported :: bool

record Cmd = HelmVer +
  helmHome :: string
  WorkDir :: string

text \<open>
  Modelled from the spec: the struct \<^verbatim>\<open>Creds\<close> is declared in another file of the
  package; \<^verbatim>\<open>CertData\<close> and \<^verbatim>\<open>KeyData\<close> are byte slices.
\<close>

record Creds =
  Username :: string
  Password :: string
  CAPath :: string
  CertData :: string
  KeyData :: string

text \<open>
  The three \<^verbatim>\<open>map[string]string\<close> fields are finite maps. A Go \<^verbatim>\<open>range\<close> loop over a map
  visits every key once, in an order the language leaves to the runtime; the order
  of each loop is an argument of the model (\<open>range_order\<close>).
\<close>

record TemplateOpts =
  Name :: string
  Namespace :: string
  KubeVersion :: string
  APIVersions :: "string list"
  Set :: "string \<rightharpoonup> string"
  SetString :: "string \<rightharpoonup> string"
  SetFile :: "string \<rightharpoonup> string"
  Values :: "string list"

record range_order =
  order_Set :: "string list"
  order_SetString :: "string list"
  order_SetFile :: "string list"

definition valid_order :: "(string \<rightharpoonup> string) \<Rightarrow> string list \<Rightarrow> bool" where
  "valid_order m ks \<longleftrightarrow> distinct ks \<and> set ks = dom m"

definition valid_orders :: "TemplateOpts \<Rightarrow> range_order \<Rightarrow> bool" where
  "valid_orders opts ord \<longleftrightarrow>
     valid_order (Set opts) (order_Set ord) \<and>
     valid_order (SetString opts) (order_SetString ord) \<and>
     valid_order (SetFile opts) (order_SetFile ord)"

fun range_map :: "(string \<rightharpoonup> string) \<Rightarrow> string list \<Rightarrow> (string \<times> string) list" where
  "range_map m [] = []"
| "range_map m (k # ks) =
     (case m k of None \<Rightarrow> range_map m ks | Some v \<Rightarrow> (k, v) # range_map m ks)"

subsection \<open>The operating system\<close>

datatype node = File string | Directory

datatype error = OSError string | ExecutionError nat string

datatype outcome = Ok | Failure nat

record exec_Cmd =
  Path :: string
  Args :: "string list"
  Dir :: string
  Env :: "string list"

type_synonym filesystem = "string \<rightharpoonup> node"

text \<open>
  The state the functions of the file act on. \<open>fs\<close> maps the paths that exist to
  what they hold; paths are compared as strings. \<open>random_names\<close> are the random
  suffixes the runtime will draw for temporary names, and \<open>faults\<close> the outcomes of
  the coming calls that create or write a file, in order (none left: the call
  succeeds); \<open>Failure n\<close> is a failure, for a write after \<open>n\<close> bytes.
  \<open>removal_faults\<close> are the outcomes of the coming removals. \<open>process\<close> is the behaviour
  of the external programs: exit code, combined output and effect on the file
  system. \<open>launched\<close> and \<open>created\<close> are traces: the processes started and the
  temporary paths created so far.
\<close>

record world =
  fs :: filesystem
  tempDir :: string
  random_names :: "string list"
  faults :: "outcome list"
  removal_faults :: "outcome list"
  environ :: "string list"
  process :: "exec_Cmd \<Rightarrow> filesystem \<Rightarrow> (nat \<times> string) \<times> filesystem"
  launched :: "exec_Cmd list"
  created :: "string list"

definition next_outcome :: "world \<Rightarrow> outcome \<times> world" where
  "next_outcome w =
     (case faults w of [] \<Rightarrow> (Ok, w) | f # rest \<Rightarrow> (f, w\<lparr>faults := rest\<rparr>))"

text \<open>
  \<^verbatim>\<open>ioutil.TempFile(dir, pattern)\<close> and \<^verbatim>\<open>ioutil.TempDir(dir, pattern)\<close>: the name is
  \<^verbatim>\<open>dir/pattern<random>\<close>, in \<^verbatim>\<open>os.TempDir()\<close> when \<^verbatim>\<open>dir\<close> is empty; a name that exists
  is skipped and the next random suffix is tried.
\<close>

definition temp_base :: "world \<Rightarrow> string \<Rightarrow> string \<Rightarrow> string" where
  "temp_base w dir pattern = (if dir = [] then tempDir w else dir) @ ''/'' @ pattern"

fun first_free :: "filesystem \<Rightarrow> string \<Rightarrow> string list \<Rightarrow> (string \<times> string list) option" where
  "first_free f base [] = None"
| "first_free f base (n # ns) =
     (if f (base @ n) = None then Some (base @ n, ns) else first_free f base ns)"

definition create_temp :: "node \<Rightarrow> string \<Rightarrow> string \<Rightarrow> world \<Rightarrow> (error + string) \<times> world" where
  "create_temp nd dir pattern w =
     (case next_outcome w of
        (Failure n, w1) \<Rightarrow> (Inl (OSError ''create''), w1)
      | (Ok, w1) \<Rightarrow>
          (case first_free (fs w1) (temp_base w1 dir pattern) (random_names w1) of
             None \<Rightarrow> (Inl (OSError ''exist''), w1\<lparr>random_names := []\<rparr>)
           | Some (p, ns) \<Rightarrow>
               (Inr p, w1\<lparr>fs := (fs w1)(p \<mapsto> nd), random_names := ns,
                         created := created w1 @ [p]\<rparr>)))"

definition TempFile :: "string \<Rightarrow> string \<Rightarrow> world \<Rightarrow> (error + string) \<times> world" where
  "TempFile dir pattern w = create_temp (File []) dir pattern w"

definition TempDir :: "string \<Rightarrow> string \<Rightarrow> world \<Rightarrow> (error + string) \<times> world" where
  "TempDir dir pattern w = create_temp Directory dir pattern w"

text \<open>
  \<^verbatim>\<open>file.Write(data)\<close> on the handle of a file just created (named by its path):
  the bytes are appended to what the file holds.
\<close>

definition append_bytes :: "filesystem \<Rightarrow> string \<Rightarrow> string \<Rightarrow> filesystem" where
  "append_bytes f p bytes =
     (case f p of Some (File old) \<Rightarrow> f(p \<mapsto> File (old @ bytes)) | _ \<Rightarrow> f)"

definition File_Write :: "string \<Rightarrow> string \<Rightarrow> world \<Rightarrow> error option \<times> world" where
  "File_Write p data w =
     (case next_outcome w of
        (Failure n, w1) \<Rightarrow>
          (Some (OSError ''write''), w1\<lparr>fs := append_bytes (fs w1) p (take n data)\<rparr>)
      | (Ok, w1) \<Rightarrow> (None, w1\<lparr>fs := append_bytes (fs w1) p data\<rparr>))"

text \<open>
  \<^verbatim>\<open>ioutil.WriteFile(name, data, 0644)\<close> opens the file by name, creating or truncating
  it, and writes the bytes; a failure leaves the file with the bytes written so far.
\<close>

definition WriteFile :: "string \<Rightarrow> string \<Rightarrow> world \<Rightarrow> error option \<times> world" where
  "WriteFile p data w =
     (case next_outcome w of
        (Failure n, w1) \<Rightarrow>
          (Some (OSError ''write''), w1\<lparr>fs := (fs w1)(p \<mapsto> File (take n data))\<rparr>)
      | (Ok, w1) \<Rightarrow> (None, w1\<lparr>fs := (fs w1)(p \<mapsto> File data)\<rparr>))"

text \<open>
  \<^verbatim>\<open>os.RemoveAll(path)\<close> removes the path and everything below it and returns an
  error when it cannot; a path that does not exist is no error, and the empty path
  is no error and no system call. A removal that fails leaves the path itself, and
  may have removed entries below it already: after \<open>Failure n\<close>, those whose path
  is longer than \<open>n\<close> characters. Nothing outside the path is touched.
\<close>

definition at_or_below :: "string \<Rightarrow> string \<Rightarrow> bool" where
  "at_or_below p q \<longleftrightarrow> q = p \<or> prefix (p @ ''/'') q"

definition next_removal :: "world \<Rightarrow> outcome \<times> world" where
  "next_removal w =
     (case removal_faults w of [] \<Rightarrow> (Ok, w) | f # rest \<Rightarrow> (f, w\<lparr>removal_faults := rest\<rparr>))"

definition RemoveAll :: "string \<Rightarrow> world \<Rightarrow> error option \<times> world" where
  "RemoveAll p w =
     (if p = [] then (None, w)
      else case next_removal w of
        (Failure n, w1) \<Rightarrow>
          (Some (OSError ''remove''),
           w1\<lparr>fs := (\<lambda>q. if prefix (p @ ''/'') q \<and> n < length q then None else fs w1 q)\<rparr>)
      | (Ok, w1) \<Rightarrow>
          (None, w1\<lparr>fs := (\<lambda>q. if at_or_below p q then None else fs w1 q)\<rparr>))"

text \<open>
  Modelled from the spec: \<^verbatim>\<open>util.NewCloser\<close> and \<^verbatim>\<open>util.Close\<close> are in package
  \<^verbatim>\<open>util\<close>, outside the file verified here. A closer holds the release
  action of a scoped acquisition; the only one this file builds removes a path.
  \<^verbatim>\<open>util.Close\<close> runs the action and does not return its error.
\<close>

datatype closer = RemoveAllCloser string

definition util_Close :: "closer \<Rightarrow> world \<Rightarrow> world" where
  "util_Close cl w = (case cl of RemoveAllCloser p \<Rightarrow> snd (RemoveAll p w))"

text \<open>\<^verbatim>\<open>exec.Command(name, arg...)\<close>: \<^verbatim>\<open>Args\<close> holds the name followed by the arguments.\<close>

definition exec_Command :: "string \<Rightarrow> string list \<Rightarrow> exec_Cmd" where
  "exec_Command name arg = \<lparr>Path = name, Args = name # arg, Dir = [], Env = []\<rparr>"

text \<open>
  Modelled from the spec: \<^verbatim>\<open>executil.RunWithRedactor\<close> is in package \<^verbatim>\<open>util/exec\<close>,
  outside the file verified here. It starts the process and waits for it;
  on exit code 0 it returns the redacted combined output, on another exit code an
  error that carries the code and the redacted output.
\<close>

definition RunWithRedactor ::
  "exec_Cmd \<Rightarrow> (string \<Rightarrow> string) \<Rightarrow> world \<Rightarrow> (error + string) \<times> world" where
  "RunWithRedactor cmd red w =
     (case process w cmd (fs w) of
        ((code, out), f) \<Rightarrow>
          (if code = 0 then Inr (red out) else Inl (ExecutionError code (red out)),
           w\<lparr>fs := f, launched := launched w @ [cmd]\<rparr>))"

subsection \<open>The operations\<close>

definition run :: "Cmd \<Rightarrow> string list \<Rightarrow> world \<Rightarrow> (error + string) \<times> world" where
  "run c args w =
     (let cmd = exec_Command (binaryName c) args;
          cmd = cmd\<lparr>Dir := WorkDir c\<rparr>;
          cmd = cmd\<lparr>Env := environ w\<rparr>;
          cmd = cmd\<lparr>Env := Env cmd @
            [''XDG_CACHE_HOME='' @ helmHome c @ ''/cache'',
             ''XDG_CONFIG_HOME='' @ helmHome c @ ''/config'',
             ''XDG_DATA_HOME='' @ helmHome c @ ''/data'',
             ''HELM_HOME='' @ helmHome c]\<rparr>
      in RunWithRedactor cmd redactor w)"

definition Init :: "Cmd \<Rightarrow> world \<Rightarrow> (error + string) \<times> world" where
  "Init c w =
     (if initSupported c then run c [''init'', ''--client-only'', ''--skip-refresh''] w
      else (Inr [], w))"

text \<open>
  \<^verbatim>\<open>RepoAdd\<close>, the statements after the \<^verbatim>\<open>defer\<close>: every \<^verbatim>\<open>return\<close> of the source is a
  branch that ends here.
\<close>

definition RepoAdd_body ::
  "Cmd \<Rightarrow> string \<Rightarrow> string \<Rightarrow> Creds \<Rightarrow> world \<Rightarrow> (error + string) \<times> world" where
  "RepoAdd_body c name url opts w =
     (let args = [''repo'', ''add''];
          args = (if Username opts \<noteq> [] then args @ [''--username'', Username opts] else args);
          args = (if Password opts \<noteq> [] then args @ [''--password'', Password opts] else args);
          args = (if CAPath opts \<noteq> [] then args @ [''--ca-file'', CAPath opts] else args)
      in case (if CertData opts \<noteq> [] then
                 (case TempFile [] ''helm'' w of
                    (Inl err, w1) \<Rightarrow> (Inl err, w1)
                  | (Inr certFile, w1) \<Rightarrow>
                      (case File_Write certFile (CertData opts) w1 of
                         (Some err, w2) \<Rightarrow> (Inl err, w2)
                       | (None, w2) \<Rightarrow> (Inr (args @ [''--cert-file'', certFile]), w2)))
               else (Inr args, w)) of
           (Inl err, w2) \<Rightarrow> (Inl err, w2)
         | (Inr args, w2) \<Rightarrow>
             (case (if KeyData opts \<noteq> [] then
                      (case TempFile [] ''helm'' w2 of
                         (Inl err, w3) \<Rightarrow> (Inl err, w3)
                       | (Inr keyFile, w3) \<Rightarrow>
                           (case File_Write keyFile (KeyData opts) w3 of
                              (Some err, w4) \<Rightarrow> (Inl err, w4)
                            | (None, w4) \<Rightarrow> (Inr (args @ [''--key-file'', keyFile]), w4)))
                    else (Inr args, w2)) of
                (Inl err, w4) \<Rightarrow> (Inl err, w4)
              | (Inr args, w4) \<Rightarrow> run c (args @ [name, url]) w4))"

text \<open>
  \<^verbatim>\<open>RepoAdd\<close>: the temporary directory, the deferred \<^verbatim>\<open>os.RemoveAll(tmp)\<close>, which
  runs when the body returns, whatever it returns.
\<close>

definition RepoAdd ::
  "Cmd \<Rightarrow> string \<Rightarrow> string \<Rightarrow> Creds \<Rightarrow> world \<Rightarrow> (error + string) \<times> world" where
  "RepoAdd c name url opts w =
     (case TempDir [] ''helm'' w of
        (Inl err, w1) \<Rightarrow> (Inl err, w1)
      | (Inr tmp, w1) \<Rightarrow>
          (case RepoAdd_body c name url opts w1 of
             (res, w2) \<Rightarrow> (res, snd (RemoveAll tmp w2))))"

definition writeToTmp :: "string \<Rightarrow> world \<Rightarrow> (error + string \<times> closer) \<times> world" where
  "writeToTmp data w =
     (case TempFile [] [] w of
        (Inl err, w1) \<Rightarrow> (Inl err, w1)
      | (Inr file, w1) \<Rightarrow>
          (case WriteFile file data w1 of
             (Some err, w2) \<Rightarrow> (Inl err, snd (RemoveAll file w2))
           | (None, w2) \<Rightarrow> (Inr (file, RemoveAllCloser file), w2)))"

text \<open>
  \<^verbatim>\<open>Fetch\<close> from the key block on, and from the certificate block on. A deferred
  \<^verbatim>\<open>util.Close(closer)\<close> runs when the rest of the function has returned, so the
  closers run last in, first out.
\<close>

definition Fetch_key ::
  "Cmd \<Rightarrow> string \<Rightarrow> string \<Rightarrow> Creds \<Rightarrow> string list \<Rightarrow> world \<Rightarrow> (error + string) \<times> world" where
  "Fetch_key c repo chartName creds args w =
     (if KeyData creds \<noteq> [] then
        (case writeToTmp (KeyData creds) w of
           (Inl err, w1) \<Rightarrow> (Inl err, w1)
         | (Inr (filePath, cl), w1) \<Rightarrow>
             (case run c (args @ [''--key-file'', filePath] @ [''--repo'', repo, chartName]) w1 of
                (res, w2) \<Rightarrow> (res, util_Close cl w2)))
      else run c (args @ [''--repo'', repo, chartName]) w)"

definition Fetch_cert ::
  "Cmd \<Rightarrow> string \<Rightarrow> string \<Rightarrow> Creds \<Rightarrow> string list \<Rightarrow> world \<Rightarrow> (error + string) \<times> world" where
  "Fetch_cert c repo chartName creds args w =
     (if CertData creds \<noteq> [] then
        (case writeToTmp (CertData creds) w of
           (Inl err, w1) \<Rightarrow> (Inl err, w1)
         | (Inr (filePath, cl), w1) \<Rightarrow>
             (case Fetch_key c repo chartName creds (args @ [''--cert-file'', filePath]) w1 of
                (res, w2) \<Rightarrow> (res, util_Close cl w2)))
      else Fetch_key c repo chartName creds args w)"

definition Fetch ::
  "Cmd \<Rightarrow> string \<Rightarrow> string \<Rightarrow> string \<Rightarrow> string \<Rightarrow> Creds \<Rightarrow> world \<Rightarrow> (error + string) \<times> world" where
  "Fetch c repo chartName version destination creds w =
     (let args = [pullCommand c, ''--destination'', destination];
          args = (if version \<noteq> [] then args @ [''--version'', version] else args);
          args = (if Username creds \<noteq> [] then args @ [''--username'', Username creds] else args);
          args = (if Password creds \<noteq> [] then args @ [''--password'', Password creds] else args);
          args = (if CAPath creds \<noteq> [] then args @ [''--ca-file'', CAPath creds] else args)
      in Fetch_cert c repo chartName creds args w)"

definition dependencyBuild :: "Cmd \<Rightarrow> world \<Rightarrow> (error + string) \<times> world" where
  "dependencyBuild c w = run c [''dependency'', ''build''] w"

definition inspectValues :: "Cmd \<Rightarrow> string \<Rightarrow> world \<Rightarrow> (error + string) \<times> world" where
  "inspectValues c values w = run c [showCommand c, ''values'', values] w"

text \<open>
  The loops of \<^verbatim>\<open>template\<close>, each appending to the argument list. The options are
  passed by pointer; the model takes the record the pointer refers to.
\<close>

fun append_set :: "string \<Rightarrow> string list \<Rightarrow> (string \<times> string) list \<Rightarrow> string list" where
  "append_set flag args [] = args"
| "append_set flag args ((key, val) # kvs) =
     append_set flag (args @ [flag, key @ ''='' @ cleanSetParameters val]) kvs"

fun append_each :: "string \<Rightarrow> string list \<Rightarrow> string list \<Rightarrow> string list" where
  "append_each flag args [] = args"
| "append_each flag args (v # vs) = append_each flag (args @ [flag, v]) vs"

definition template_args :: "Cmd \<Rightarrow> string \<Rightarrow> TemplateOpts \<Rightarrow> range_order \<Rightarrow> string list" where
  "template_args c chartPath opts ord =
     (let args = [''template'', chartPath, templateNameArg c, Name opts];
          args = (if Namespace opts \<noteq> [] then args @ [''--namespace'', Namespace opts] else args);
          args = (if KubeVersion opts \<noteq> [] \<and> kubeVersionSupported c
                  then args @ [''--kube-version'', KubeVersion opts] else args);
          args = append_set ''--set'' args (range_map (Set opts) (order_Set ord));
          args = append_set ''--set-string'' args
                   (range_map (SetString opts) (order_SetString ord));
          args = append_set ''--set-file'' args (range_map (SetFile opts) (order_SetFile ord));
          args = append_each ''--values'' args (Values opts);
          args = append_each ''--api-versions'' args (APIVersions opts)
      in args)"

definition template ::
  "Cmd \<Rightarrow> string \<Rightarrow> TemplateOpts \<Rightarrow> range_order \<Rightarrow> world \<Rightarrow> (error + string) \<times> world" where
  "template c chartPath opts ord w = run c (template_args c chartPath opts ord) w"

text \<open>
  \<^verbatim>\<open>Close\<close> has no result: the error of \<^verbatim>\<open>os.RemoveAll\<close> is discarded.
\<close>

definition Close :: "Cmd \<Rightarrow> world \<Rightarrow> world" where
  "Close c w = snd (RemoveAll (helmHome c) w)"

subsection \<open>Auxiliary definitions and example values\<close>

text \<open>The two tokens one iteration of a \<^verbatim>\<open>--set\<close> loop appends.\<close>

definition set_pair :: "string \<Rightarrow> string \<times> string \<Rightarrow> string list" where
  "set_pair flag kv = [flag, fst kv @ ''='' @ cleanSetParameters (snd kv)]"

text \<open>
  The profile and the options of the specification's scenario, and options with two
  \<^verbatim>\<open>--set\<close> entries.
\<close>

definition legacy_cmd :: Cmd where
  "legacy_cmd = \<lparr>binaryName = ''helm'', initSupported = True, pullCommand = ''fetch'',
     showCommand = ''inspect'', templateNameArg = ''--name'', kubeVersionSupported = False,
     helmHome = ''/tmp/helm0'', WorkDir = ''/work''\<rparr>"

definition two_sets :: TemplateOpts where
  "two_sets = \<lparr>Name = ''r1'', Namespace = [], KubeVersion = ''1.18'', APIVersions = [],
     Set = [''a'' \<mapsto> ''1'', ''b'' \<mapsto> ''2''], SetString = Map.empty, SetFile = Map.empty,
     Values = []\<rparr>"

definition release_opts :: TemplateOpts where
  "release_opts = \<lparr>Name = ''r1'', Namespace = [], KubeVersion = ''1.18'', APIVersions = [],
     Set = Map.empty, SetString = Map.empty, SetFile = Map.empty, Values = []\<rparr>"

text \<open>
  The command \<open>run\<close> hands to the runner, the processes an operation has started,
  and the value and the place of an environment entry.
\<close>

definition run_command :: "Cmd \<Rightarrow> string list \<Rightarrow> string list \<Rightarrow> exec_Cmd" where
  "run_command c args env =
     \<lparr>Path = binaryName c, Args = binaryName c # args, Dir = WorkDir c,
      Env = env @
        [''XDG_CACHE_HOME='' @ helmHome c @ ''/cache'',
         ''XDG_CONFIG_HOME='' @ helmHome c @ ''/config'',
         ''XDG_DATA_HOME='' @ helmHome c @ ''/data'',
         ''HELM_HOME='' @ helmHome c]\<rparr>"

definition new_launched :: "world \<Rightarrow> world \<Rightarrow> exec_Cmd list" where
  "new_launched w w' = drop (length (launched w)) (launched w')"

definition env_value :: "string \<Rightarrow> string" where
  "env_value entry = drop 1 (dropWhile (\<lambda>c. c \<noteq> CHR ''='') entry)"

definition below :: "string \<Rightarrow> string \<Rightarrow> bool" where
  "below home p \<longleftrightarrow> strict_prefix (home @ ''/'') p"

text \<open>
  A state in which every system call succeeds and the tool exits with code 0, the
  same state with a write that fails after two bytes, and credentials with a
  certificate and a key.
\<close>

definition quiet_world :: world where
  "quiet_world = \<lparr>fs = Map.empty, tempDir = ''/tmp'', random_names = [''1'', ''2'', ''3''],
     faults = [], removal_faults = [], environ = [''PATH=/usr/bin''], process = (\<lambda>cmd f. ((0, ''ok''), f)),
     launched = [], created = []\<rparr>"

definition cert_creds :: Creds where
  "cert_creds = \<lparr>Username = [], Password = [], CAPath = [], CertData = ''CERT'', KeyData = ''KEY''\<rparr>"

definition failing_write_world :: world where
  "failing_write_world = quiet_world\<lparr>faults := [Ok, Failure 2]\<rparr>"

text \<open>
  The state in which the write fails and the removal after it fails too, and a
  state with a home directory, an entry below it and a file elsewhere.
\<close>

definition failing_removal_world :: world where
  "failing_removal_world = quiet_world\<lparr>faults := [Ok, Failure 2], removal_faults := [Failure 0]\<rparr>"

definition home_world :: world where
  "home_world = quiet_world\<lparr>fs := [''/tmp/helm0'' \<mapsto> Directory,
     ''/tmp/helm0/cache'' \<mapsto> Directory, ''/work/Chart.yaml'' \<mapsto> File ''x'']\<rparr>"

text \<open>
  The arguments a credential blob contributes: none when the blob is empty, the
  flag and the path of a temporary file when it is not.
\<close>

definition file_flag :: "string \<Rightarrow> string \<Rightarrow> string list \<Rightarrow> bool" where
  "file_flag flag data fl \<longleftrightarrow>
     (data = [] \<and> fl = []) \<or> (data \<noteq> [] \<and> (\<exists>p. fl = [flag, p] \<and> CHR ''/'' \<in> set p))"

text \<open>
  The temporary-file steps of \<open>Fetch\<close>: the state in which the key is written (after
  the certificate, when there is one), and whether both steps succeed.
\<close>

definition cert_world :: "Creds \<Rightarrow> world \<Rightarrow> world" where
  "cert_world creds w =
     (if CertData creds = [] then w else snd (writeToTmp (CertData creds) w))"

definition temp_files_written :: "Creds \<Rightarrow> world \<Rightarrow> bool" where
  "temp_files_written creds w \<longleftrightarrow>
     (CertData creds = [] \<or> \<not> isl (fst (writeToTmp (CertData creds) w))) \<and>
     (KeyData creds = [] \<or> \<not> isl (fst (writeToTmp (KeyData creds) (cert_world creds w))))"

section \<open>Properties\<close>

subsection \<open>Comma escaping\<close>

lemma cleanSetParameters_fixed_from:
  "commas_escaped_from p v \<Longrightarrow> cleanSetParameters v = v"
  by (induction v arbitrary: p rule: cleanSetParameters.induct) auto

lemma cleanSetParameters_escape_from:
  "no_adjacent_commas v \<Longrightarrow> (prefix [comma] v \<longrightarrow> p = Some backslash) \<Longrightarrow>
   cleanSetParameters v = escape_from p v"
proof (induction v arbitrary: p rule: cleanSetParameters.induct)
  case (1 c d rest)
  show ?case
  proof (cases "c \<noteq> backslash \<and> d = comma")
    case True
    with "1.prems" have "cleanSetParameters rest = escape_from (Some comma) rest"
      by (intro "1.IH"(1)) (cases rest; auto)+
    with True "1.prems" show ?thesis by auto
  next
    case False
    with "1.prems" have "cleanSetParameters (d # rest) = escape_from (Some c) (d # rest)"
      by (intro "1.IH"(2)) auto
    with False "1.prems" show ?thesis by auto
  qed
qed auto

lemma commas_escaped_escape_from: "commas_escaped_from p (escape_from p v)"
  by (induction v arbitrary: p) auto

text \<open>
  Claim C3. The transform applied to every \<^verbatim>\<open>--set\<close>, \<^verbatim>\<open>--set-string\<close> and \<^verbatim>\<open>--set-file\<close>
  value should put a backslash before every comma that no backslash precedes, at
  every position, the first included. The code does not: a comma that is the first
  character of the value has no character before it for the pattern to match, and
  a comma right after an escaped one follows the end of the previous match; both
  stay as they are, where the described transform (\<open>escape_commas\<close>) escapes them.
\<close>

theorem cleanSetParameters_misses_commas:
  "cleanSetParameters '',a'' = '',a'' \<and>
   escape_commas '',a'' = backslash # '',a'' \<and>
   cleanSetParameters ''a,,b'' = ''a'' @ backslash # '',,b'' \<and>
   escape_commas ''a,,b'' = ''a'' @ backslash # '','' @ backslash # '',b''"
  by (simp add: escape_commas_def)

text \<open>
  Claim C9. Applied to a value with an unescaped comma, \<open>cleanSetParameters\<close> should
  yield the escaped form, and a second application should change nothing more.
  This is the defect of claim C3 again: the value \<^verbatim>\<open>,a\<close> is returned as it is, not
  escaped, and \<^verbatim>\<open>a,,b\<close> becomes \<^verbatim>\<open>a\,,b\<close>, which is not the escaped form and which a
  second application changes again, to \<^verbatim>\<open>a\,\,b\<close>. On \<^verbatim>\<open>a,b\<close> and on \<^verbatim>\<open>a\,b\<close> the code
  does what the claim says.
\<close>

theorem cleanSetParameters_not_escaped_form:
  "cleanSetParameters '',a'' \<noteq> escape_commas '',a'' \<and>
   cleanSetParameters ''a,,b'' \<noteq> escape_commas ''a,,b'' \<and>
   cleanSetParameters (cleanSetParameters ''a,,b'') \<noteq> cleanSetParameters ''a,,b'' \<and>
   cleanSetParameters (cleanSetParameters ''a,,b'') = escape_commas ''a,,b'' \<and>
   cleanSetParameters ''a,b'' = ''a'' @ backslash # '',b'' \<and>
   cleanSetParameters (''a'' @ backslash # '',b'') = ''a'' @ backslash # '',b''"
  by (simp add: escape_commas_def)

text \<open>
  Where the code and the described transform agree: on a value in which every
  comma has a character before it and no two commas are adjacent, the result is the
  escaped form, every comma of it is escaped and a second application changes
  nothing; a value whose commas are all escaped is returned as it is.
\<close>

lemma cleanSetParameters_escapes_and_is_stable:
  "(\<not> prefix [comma] v \<and> no_adjacent_commas v \<longrightarrow>
      cleanSetParameters v = escape_commas v \<and> commas_escaped (cleanSetParameters v) \<and>
      cleanSetParameters (cleanSetParameters v) = cleanSetParameters v) \<and>
   (commas_escaped w \<longrightarrow>
      cleanSetParameters w = w \<and> cleanSetParameters (cleanSetParameters w) = cleanSetParameters w)"
proof (intro conjI impI)
  assume "\<not> prefix [comma] v \<and> no_adjacent_commas v"
  then show eq: "cleanSetParameters v = escape_commas v"
    unfolding escape_commas_def by (intro cleanSetParameters_escape_from) auto
  show esc: "commas_escaped (cleanSetParameters v)"
    unfolding eq by (simp add: commas_escaped_def escape_commas_def commas_escaped_escape_from)
  then show "cleanSetParameters (cleanSetParameters v) = cleanSetParameters v"
    unfolding commas_escaped_def by (rule cleanSetParameters_fixed_from)
next
  assume "commas_escaped w"
  then show fixed: "cleanSetParameters w = w"
    unfolding commas_escaped_def by (rule cleanSetParameters_fixed_from)
  then show "cleanSetParameters (cleanSetParameters w) = cleanSetParameters w"
    by simp
qed

lemma cleanSetParameters_escapes_and_is_stable_example:
  "(\<not> prefix [comma] ''a,b'' \<and> no_adjacent_commas ''a,b'') \<and>
   cleanSetParameters ''a,b'' = ''a'' @ backslash # '',b'' \<and>
   commas_escaped (''a'' @ backslash # '',b'') \<and>
   cleanSetParameters (''a'' @ backslash # '',b'') = ''a'' @ backslash # '',b'' \<and>
   cleanSetParameters (cleanSetParameters (''a'' @ backslash # '',b'')) =
     cleanSetParameters (''a'' @ backslash # '',b'')"
  using cleanSetParameters_escapes_and_is_stable [of "''a,b''" "''a'' @ backslash # '',b''"]
  by (simp add: commas_escaped_def escape_commas_def)


subsection \<open>Redaction\<close>
















subsection \<open>The template argument list\<close>

lemma append_set_eq:
  "append_set flag args kvs = args @ concat (map (set_pair flag) kvs)"
  by (induction kvs arbitrary: args) (auto simp: set_pair_def)

lemma append_each_eq:
  "append_each flag args vs = args @ concat (map (\<lambda>v. [flag, v]) vs)"
  by (induction vs arbitrary: args) auto

lemma set_pair_tokens:
  "x \<in> set (concat (map (set_pair flag) kvs)) \<Longrightarrow> x = flag \<or> CHR ''='' \<in> set x"
  by (auto simp: set_pair_def split: if_splits)

lemma each_tokens:
  "set (concat (map (\<lambda>v. [flag, v]) vs)) = (if vs = [] then {} else insert flag (set vs))"
  by (induction vs) auto

lemma range_map_eq:
  "set ks \<subseteq> dom m \<Longrightarrow> range_map m ks = map (\<lambda>k. (k, the (m k))) ks"
  by (induction ks) auto

lemma range_map_mset:
  assumes "valid_order m ks" "valid_order m ks'"
  shows "mset (range_map m ks) = mset (range_map m ks')"
proof -
  from assms have "mset ks = mset ks'"
    by (simp add: valid_order_def set_eq_iff_mset_eq_distinct [symmetric])
  then have "mset (map (\<lambda>k. (k, the (m k))) ks) = mset (map (\<lambda>k. (k, the (m k))) ks')"
    by simp
  with assms show ?thesis
    by (simp add: range_map_eq valid_order_def)
qed

lemma mset_concat_map:
  "mset xs = mset ys \<Longrightarrow> mset (concat (map g xs)) = mset (concat (map g ys))"
  by (metis mset_concat sum_mset_sum_list mset_map map_map)

lemma valid_order_unique:
  assumes "valid_order m ks" "valid_order m ks'" "card (dom m) \<le> 1"
  shows "ks = ks'"
proof -
  from assms have l: "length ks \<le> 1" "length ks' \<le> 1"
    by (auto simp: valid_order_def dest: distinct_card)
  from assms have s: "set ks = set ks'"
    by (simp add: valid_order_def)
  show ?thesis
  proof (cases ks)
    case Nil
    with s show ?thesis by simp
  next
    case (Cons k r)
    with l have "ks = [k]" by simp
    moreover from this s l obtain k' where "ks' = [k']" by (cases ks') auto
    ultimately show ?thesis using s by simp
  qed
qed

lemma template_args_eq:
  "template_args c chartPath opts ord =
     [''template'', chartPath, templateNameArg c, Name opts]
     @ (if Namespace opts \<noteq> [] then [''--namespace'', Namespace opts] else [])
     @ (if KubeVersion opts \<noteq> [] \<and> kubeVersionSupported c
        then [''--kube-version'', KubeVersion opts] else [])
     @ concat (map (set_pair ''--set'') (range_map (Set opts) (order_Set ord)))
     @ concat (map (set_pair ''--set-string'') (range_map (SetString opts) (order_SetString ord)))
     @ concat (map (set_pair ''--set-file'') (range_map (SetFile opts) (order_SetFile ord)))
     @ concat (map (\<lambda>v. [''--values'', v]) (Values opts))
     @ concat (map (\<lambda>v. [''--api-versions'', v]) (APIVersions opts))"
  by (simp add: template_args_def append_set_eq append_each_eq Let_def)

text \<open>
  Claim C5, as stated: for fixed options two constructions of the argument list are
  identical. The lists follow the order in which the \<^verbatim>\<open>range\<close> loops visit the keys
  of the three maps, which Go does not fix: for a \<^verbatim>\<open>Set\<close> map with the keys \<^verbatim>\<open>a\<close> and
  \<^verbatim>\<open>b\<close> both visiting orders are possible and give different lists.
\<close>

theorem template_args_order_counterexample:
  "valid_orders two_sets \<lparr>order_Set = [''a'', ''b''], order_SetString = [], order_SetFile = []\<rparr> \<and>
   valid_orders two_sets \<lparr>order_Set = [''b'', ''a''], order_SetString = [], order_SetFile = []\<rparr> \<and>
   template_args legacy_cmd ''./chart'' two_sets
     \<lparr>order_Set = [''a'', ''b''], order_SetString = [], order_SetFile = []\<rparr> =
     [''template'', ''./chart'', ''--name'', ''r1'', ''--set'', ''a=1'', ''--set'', ''b=2''] \<and>
   template_args legacy_cmd ''./chart'' two_sets
     \<lparr>order_Set = [''b'', ''a''], order_SetString = [], order_SetFile = []\<rparr> =
     [''template'', ''./chart'', ''--name'', ''r1'', ''--set'', ''b=2'', ''--set'', ''a=1'']"
  by (simp add: valid_orders_def valid_order_def two_sets_def legacy_cmd_def template_args_def
      insert_commute)

lemma range_map_entries:
  assumes "valid_order m ks"
  shows "map_of (range_map m ks) = m" "distinct (map fst (range_map m ks))"
proof -
  from assms have d: "distinct ks" and s: "set ks = dom m"
    by (simp_all add: valid_order_def)
  from s have r: "range_map m ks = map (\<lambda>k. (k, the (m k))) ks"
    by (simp add: range_map_eq)
  have "map fst (range_map m ks) = ks"
    unfolding r by (simp add: comp_def)
  with d show "distinct (map fst (range_map m ks))" by simp
  show "map_of (range_map m ks) = m"
  proof
    fix k
    show "map_of (range_map m ks) k = m k"
    proof (cases "k \<in> set ks")
      case True
      then have "map_of (map (\<lambda>k. (k, the (m k))) ks) k = Some (the (m k))"
        by (induction ks) auto
      moreover from True s obtain v where "m k = Some v" by auto
      ultimately show ?thesis unfolding r by simp
    next
      case False
      then have "map_of (map (\<lambda>k. (k, the (m k))) ks) k = None"
        by (induction ks) auto
      moreover from False s have "m k = None" by auto
      ultimately show ?thesis unfolding r by simp
    qed
  qed
qed

text \<open>
  Claim C5, amended. For fixed options, two constructions of the argument list
  agree in everything but the order inside the three groups: both are the same
  leading tokens (\<^verbatim>\<open>template\<close>, the chart path, the name pair, the optional namespace
  and kube-version pairs), then the \<^verbatim>\<open>--set\<close> group, the \<^verbatim>\<open>--set-string\<close> group and the
  \<^verbatim>\<open>--set-file\<close> group in this order, then the same \<^verbatim>\<open>--values\<close> and \<^verbatim>\<open>--api-versions\<close>
  pairs. Each group holds one pair of the flag and \<^verbatim>\<open>key=value\<close> for every entry of its
  map, and the two constructions may list these pairs in different orders. The
  two lists are the same when each of the three maps has at most one entry.
\<close>

theorem template_args_order:
  "valid_orders opts ord1 \<and> valid_orders opts ord2 \<longrightarrow>
     template_args c chartPath opts ord1 =
       [''template'', chartPath, templateNameArg c, Name opts]
       @ (if Namespace opts \<noteq> [] then [''--namespace'', Namespace opts] else [])
       @ (if KubeVersion opts \<noteq> [] \<and> kubeVersionSupported c
          then [''--kube-version'', KubeVersion opts] else [])
       @ concat (map (set_pair ''--set'') (range_map (Set opts) (order_Set ord1)))
       @ concat (map (set_pair ''--set-string'')
           (range_map (SetString opts) (order_SetString ord1)))
       @ concat (map (set_pair ''--set-file'') (range_map (SetFile opts) (order_SetFile ord1)))
       @ concat (map (\<lambda>v. [''--values'', v]) (Values opts))
       @ concat (map (\<lambda>v. [''--api-versions'', v]) (APIVersions opts)) \<and>
     template_args c chartPath opts ord2 =
       [''template'', chartPath, templateNameArg c, Name opts]
       @ (if Namespace opts \<noteq> [] then [''--namespace'', Namespace opts] else [])
       @ (if KubeVersion opts \<noteq> [] \<and> kubeVersionSupported c
          then [''--kube-version'', KubeVersion opts] else [])
       @ concat (map (set_pair ''--set'') (range_map (Set opts) (order_Set ord2)))
       @ concat (map (set_pair ''--set-string'')
           (range_map (SetString opts) (order_SetString ord2)))
       @ concat (map (set_pair ''--set-file'') (range_map (SetFile opts) (order_SetFile ord2)))
       @ concat (map (\<lambda>v. [''--values'', v]) (Values opts))
       @ concat (map (\<lambda>v. [''--api-versions'', v]) (APIVersions opts)) \<and>
     map_of (range_map (Set opts) (order_Set ord1)) = Set opts \<and>
     map_of (range_map (SetString opts) (order_SetString ord1)) = SetString opts \<and>
     map_of (range_map (SetFile opts) (order_SetFile ord1)) = SetFile opts \<and>
     distinct (map fst (range_map (Set opts) (order_Set ord1))) \<and>
     distinct (map fst (range_map (SetString opts) (order_SetString ord1))) \<and>
     distinct (map fst (range_map (SetFile opts) (order_SetFile ord1))) \<and>
     mset (range_map (Set opts) (order_Set ord1)) =
       mset (range_map (Set opts) (order_Set ord2)) \<and>
     mset (range_map (SetString opts) (order_SetString ord1)) =
       mset (range_map (SetString opts) (order_SetString ord2)) \<and>
     mset (range_map (SetFile opts) (order_SetFile ord1)) =
       mset (range_map (SetFile opts) (order_SetFile ord2)) \<and>
     mset (template_args c chartPath opts ord1) = mset (template_args c chartPath opts ord2) \<and>
     (card (dom (Set opts)) \<le> 1 \<and> card (dom (SetString opts)) \<le> 1 \<and>
      card (dom (SetFile opts)) \<le> 1 \<longrightarrow>
        template_args c chartPath opts ord1 = template_args c chartPath opts ord2)"
proof
  assume v: "valid_orders opts ord1 \<and> valid_orders opts ord2"
  then have v1: "valid_order (Set opts) (order_Set ord1)" "valid_order (Set opts) (order_Set ord2)"
    and v2: "valid_order (SetString opts) (order_SetString ord1)"
      "valid_order (SetString opts) (order_SetString ord2)"
    and v3: "valid_order (SetFile opts) (order_SetFile ord1)"
      "valid_order (SetFile opts) (order_SetFile ord2)"
    by (simp_all add: valid_orders_def)
  note eq1 = template_args_eq [of c chartPath opts ord1]
  note eq2 = template_args_eq [of c chartPath opts ord2]
  note e1 = range_map_entries [OF v1(1)]
  note e2 = range_map_entries [OF v2(1)]
  note e3 = range_map_entries [OF v3(1)]
  note m1 = range_map_mset [OF v1]
  note m2 = range_map_mset [OF v2]
  note m3 = range_map_mset [OF v3]
  have "mset (concat (map (set_pair ''--set'') (range_map (Set opts) (order_Set ord1)))) =
      mset (concat (map (set_pair ''--set'') (range_map (Set opts) (order_Set ord2))))"
    by (rule mset_concat_map [OF m1])
  moreover have
    "mset (concat (map (set_pair ''--set-string'')
       (range_map (SetString opts) (order_SetString ord1)))) =
     mset (concat (map (set_pair ''--set-string'')
       (range_map (SetString opts) (order_SetString ord2))))"
    by (rule mset_concat_map [OF m2])
  moreover have
    "mset (concat (map (set_pair ''--set-file'') (range_map (SetFile opts) (order_SetFile ord1)))) =
     mset (concat (map (set_pair ''--set-file'') (range_map (SetFile opts) (order_SetFile ord2))))"
    by (rule mset_concat_map [OF m3])
  ultimately have ms:
    "mset (template_args c chartPath opts ord1) = mset (template_args c chartPath opts ord2)"
    by (simp add: template_args_eq)
  have same: "template_args c chartPath opts ord1 = template_args c chartPath opts ord2"
    if "card (dom (Set opts)) \<le> 1 \<and> card (dom (SetString opts)) \<le> 1 \<and>
      card (dom (SetFile opts)) \<le> 1"
  proof -
    from that have "order_Set ord1 = order_Set ord2" "order_SetString ord1 = order_SetString ord2"
      "order_SetFile ord1 = order_SetFile ord2"
      using valid_order_unique [OF v1] valid_order_unique [OF v2] valid_order_unique [OF v3]
      by simp_all
    then show ?thesis by (simp add: template_args_eq)
  qed
  from eq1 eq2 e1 e2 e3 m1 m2 m3 ms same
  show "template_args c chartPath opts ord1 =
       [''template'', chartPath, templateNameArg c, Name opts]
       @ (if Namespace opts \<noteq> [] then [''--namespace'', Namespace opts] else [])
       @ (if KubeVersion opts \<noteq> [] \<and> kubeVersionSupported c
          then [''--kube-version'', KubeVersion opts] else [])
       @ concat (map (set_pair ''--set'') (range_map (Set opts) (order_Set ord1)))
       @ concat (map (set_pair ''--set-string'')
           (range_map (SetString opts) (order_SetString ord1)))
       @ concat (map (set_pair ''--set-file'') (range_map (SetFile opts) (order_SetFile ord1)))
       @ concat (map (\<lambda>v. [''--values'', v]) (Values opts))
       @ concat (map (\<lambda>v. [''--api-versions'', v]) (APIVersions opts)) \<and>
     template_args c chartPath opts ord2 =
       [''template'', chartPath, templateNameArg c, Name opts]
       @ (if Namespace opts \<noteq> [] then [''--namespace'', Namespace opts] else [])
       @ (if KubeVersion opts \<noteq> [] \<and> kubeVersionSupported c
          then [''--kube-version'', KubeVersion opts] else [])
       @ concat (map (set_pair ''--set'') (range_map (Set opts) (order_Set ord2)))
       @ concat (map (set_pair ''--set-string'')
           (range_map (SetString opts) (order_SetString ord2)))
       @ concat (map (set_pair ''--set-file'') (range_map (SetFile opts) (order_SetFile ord2)))
       @ concat (map (\<lambda>v. [''--values'', v]) (Values opts))
       @ concat (map (\<lambda>v. [''--api-versions'', v]) (APIVersions opts)) \<and>
     map_of (range_map (Set opts) (order_Set ord1)) = Set opts \<and>
     map_of (range_map (SetString opts) (order_SetString ord1)) = SetString opts \<and>
     map_of (range_map (SetFile opts) (order_SetFile ord1)) = SetFile opts \<and>
     distinct (map fst (range_map (Set opts) (order_Set ord1))) \<and>
     distinct (map fst (range_map (SetString opts) (order_SetString ord1))) \<and>
     distinct (map fst (range_map (SetFile opts) (order_SetFile ord1))) \<and>
     mset (range_map (Set opts) (order_Set ord1)) =
       mset (range_map (Set opts) (order_Set ord2)) \<and>
     mset (range_map (SetString opts) (order_SetString ord1)) =
       mset (range_map (SetString opts) (order_SetString ord2)) \<and>
     mset (range_map (SetFile opts) (order_SetFile ord1)) =
       mset (range_map (SetFile opts) (order_SetFile ord2)) \<and>
     mset (template_args c chartPath opts ord1) = mset (template_args c chartPath opts ord2) \<and>
     (card (dom (Set opts)) \<le> 1 \<and> card (dom (SetString opts)) \<le> 1 \<and>
      card (dom (SetFile opts)) \<le> 1 \<longrightarrow>
        template_args c chartPath opts ord1 = template_args c chartPath opts ord2)"
    by (intro conjI impI)
qed

theorem template_args_order_witness:
  "valid_orders two_sets \<lparr>order_Set = [''a'', ''b''], order_SetString = [], order_SetFile = []\<rparr> \<and>
   valid_orders two_sets \<lparr>order_Set = [''b'', ''a''], order_SetString = [], order_SetFile = []\<rparr> \<and>
   mset (template_args legacy_cmd ''./chart'' two_sets
     \<lparr>order_Set = [''a'', ''b''], order_SetString = [], order_SetFile = []\<rparr>) =
   mset (template_args legacy_cmd ''./chart'' two_sets
     \<lparr>order_Set = [''b'', ''a''], order_SetString = [], order_SetFile = []\<rparr>) \<and>
   valid_orders (two_sets\<lparr>Set := [''a'' \<mapsto> ''1,2'']\<rparr>)
     \<lparr>order_Set = [''a''], order_SetString = [], order_SetFile = []\<rparr> \<and>
   card (dom (Set (two_sets\<lparr>Set := [''a'' \<mapsto> ''1,2'']\<rparr>))) \<le> 1 \<and>
   template_args legacy_cmd ''./chart'' (two_sets\<lparr>Set := [''a'' \<mapsto> ''1,2'']\<rparr>)
     \<lparr>order_Set = [''a''], order_SetString = [], order_SetFile = []\<rparr> =
   [''template'', ''./chart'', ''--name'', ''r1'', ''--set'', ''a=1'' @ backslash # '',2'']"
proof -
  let ?ab = "\<lparr>order_Set = [''a'', ''b''], order_SetString = [], order_SetFile = []\<rparr>"
  let ?ba = "\<lparr>order_Set = [''b'', ''a''], order_SetString = [], order_SetFile = []\<rparr>"
  let ?a = "\<lparr>order_Set = [''a''], order_SetString = [], order_SetFile = []\<rparr>"
  let ?one = "two_sets\<lparr>Set := [''a'' \<mapsto> ''1,2'']\<rparr>"
  have v: "valid_orders two_sets ?ab \<and> valid_orders two_sets ?ba"
    by (simp add: valid_orders_def valid_order_def two_sets_def insert_commute)
  have v1: "valid_orders ?one ?a \<and> valid_orders ?one ?a"
    by (simp add: valid_orders_def valid_order_def two_sets_def)
  have c: "card (dom (Set ?one)) \<le> 1 \<and> card (dom (SetString ?one)) \<le> 1 \<and>
      card (dom (SetFile ?one)) \<le> 1"
    by (simp add: two_sets_def)
  from template_args_order [of two_sets ?ab ?ba legacy_cmd "''./chart''"] v
  have "mset (template_args legacy_cmd ''./chart'' two_sets ?ab) =
      mset (template_args legacy_cmd ''./chart'' two_sets ?ba)"
    by blast
  moreover from template_args_order [of ?one ?a ?a legacy_cmd "''./chart''"] v1 c
  have "template_args legacy_cmd ''./chart'' ?one ?a = template_args legacy_cmd ''./chart'' ?one ?a"
    by blast
  moreover have "template_args legacy_cmd ''./chart'' ?one ?a =
      [''template'', ''./chart'', ''--name'', ''r1'', ''--set'', ''a=1'' @ backslash # '',2'']"
    by (simp add: two_sets_def legacy_cmd_def template_args_def)
  ultimately show ?thesis using v v1 c by blast
qed

text \<open>
  Claim C7. The argument list of \<^verbatim>\<open>template\<close> is the four leading tokens and the
  optional namespace pair, then the pair \<^verbatim>\<open>--kube-version <KubeVersion>\<close> if the profile
  supports it and the options carry a non-empty \<^verbatim>\<open>KubeVersion\<close>, and nothing otherwise,
  then the rest. When no value the caller supplies is the literal \<^verbatim>\<open>--kube-version\<close>,
  the token is in the list exactly in the first case; with an unsupporting profile
  it is absent whatever the options say.
\<close>

theorem template_kube_version:
  "\<exists>post.
     template_args c chartPath opts ord =
       [''template'', chartPath, templateNameArg c, Name opts]
       @ (if Namespace opts \<noteq> [] then [''--namespace'', Namespace opts] else [])
       @ (if KubeVersion opts \<noteq> [] \<and> kubeVersionSupported c
          then [''--kube-version'', KubeVersion opts] else [])
       @ post \<and>
     (''--kube-version'' \<notin> {chartPath, templateNameArg c, Name opts, Namespace opts}
        \<union> set (Values opts) \<union> set (APIVersions opts) \<longrightarrow>
      ''--kube-version'' \<notin> set post \<and>
      (\<not> kubeVersionSupported c \<longrightarrow>
         ''--kube-version'' \<notin> set (template_args c chartPath opts ord)) \<and>
      (''--kube-version'' \<in> set (template_args c chartPath opts ord) \<longleftrightarrow>
         kubeVersionSupported c \<and> KubeVersion opts \<noteq> []))"
proof -
  let ?post = "concat (map (set_pair ''--set'') (range_map (Set opts) (order_Set ord)))
     @ concat (map (set_pair ''--set-string'') (range_map (SetString opts) (order_SetString ord)))
     @ concat (map (set_pair ''--set-file'') (range_map (SetFile opts) (order_SetFile ord)))
     @ concat (map (\<lambda>v. [''--values'', v]) (Values opts))
     @ concat (map (\<lambda>v. [''--api-versions'', v]) (APIVersions opts))"
  let ?H = "''--kube-version'' \<notin> {chartPath, templateNameArg c, Name opts, Namespace opts}
        \<union> set (Values opts) \<union> set (APIVersions opts)"
  have eq: "template_args c chartPath opts ord =
       [''template'', chartPath, templateNameArg c, Name opts]
       @ (if Namespace opts \<noteq> [] then [''--namespace'', Namespace opts] else [])
       @ (if KubeVersion opts \<noteq> [] \<and> kubeVersionSupported c
          then [''--kube-version'', KubeVersion opts] else [])
       @ ?post"
    by (simp add: template_args_eq)
  have s: "''--kube-version'' \<notin> set (concat (map (set_pair flag) kvs))"
    if "flag \<noteq> ''--kube-version''" for flag kvs
    using that set_pair_tokens [of "''--kube-version''" flag kvs] by auto
  have post: "''--kube-version'' \<notin> set ?post" if ?H
    using that by (simp add: s each_tokens del: set_concat)
  have iff: "''--kube-version'' \<in> set (template_args c chartPath opts ord) \<longleftrightarrow>
      kubeVersionSupported c \<and> KubeVersion opts \<noteq> []" if ?H
    using that by (simp add: template_args_eq s each_tokens del: set_concat) blast
  from post iff have "?H \<longrightarrow>
      ''--kube-version'' \<notin> set ?post \<and>
      (\<not> kubeVersionSupported c \<longrightarrow>
         ''--kube-version'' \<notin> set (template_args c chartPath opts ord)) \<and>
      (''--kube-version'' \<in> set (template_args c chartPath opts ord) \<longleftrightarrow>
         kubeVersionSupported c \<and> KubeVersion opts \<noteq> [])"
    by (intro impI conjI) simp_all
  with eq show ?thesis by (intro exI [of _ ?post] conjI)
qed

theorem template_kube_version_witness:
  "''--kube-version'' \<notin> set (template_args legacy_cmd ''./chart'' release_opts
      \<lparr>order_Set = [], order_SetString = [], order_SetFile = []\<rparr>) \<and>
   template_args legacy_cmd ''./chart'' release_opts
      \<lparr>order_Set = [], order_SetString = [], order_SetFile = []\<rparr> =
     [''template'', ''./chart'', ''--name'', ''r1''] \<and>
   ''--kube-version'' \<in> set (template_args (legacy_cmd\<lparr>kubeVersionSupported := True\<rparr>) ''./chart''
      release_opts \<lparr>order_Set = [], order_SetString = [], order_SetFile = []\<rparr>)"
proof -
  let ?ord = "\<lparr>order_Set = [], order_SetString = [], order_SetFile = []\<rparr>"
  let ?modern = "legacy_cmd\<lparr>kubeVersionSupported := True\<rparr>"
  have h: "''--kube-version'' \<notin>
      {''./chart'', templateNameArg legacy_cmd, Name release_opts, Namespace release_opts}
      \<union> set (Values release_opts) \<union> set (APIVersions release_opts)"
    by (simp add: legacy_cmd_def release_opts_def)
  have h': "''--kube-version'' \<notin>
      {''./chart'', templateNameArg ?modern, Name release_opts, Namespace release_opts}
      \<union> set (Values release_opts) \<union> set (APIVersions release_opts)"
    by (simp add: legacy_cmd_def release_opts_def)
  have n: "\<not> kubeVersionSupported legacy_cmd"
    by (simp add: legacy_cmd_def)
  have y: "kubeVersionSupported ?modern \<and> KubeVersion release_opts \<noteq> []"
    by (simp add: release_opts_def)
  from template_kube_version [of legacy_cmd "''./chart''" release_opts ?ord] h n
  have "''--kube-version'' \<notin> set (template_args legacy_cmd ''./chart'' release_opts ?ord)"
    by blast
  moreover from template_kube_version [of ?modern "''./chart''" release_opts ?ord] h' y
  have "''--kube-version'' \<in> set (template_args ?modern ''./chart'' release_opts ?ord)"
    by blast
  moreover have "template_args legacy_cmd ''./chart'' release_opts ?ord =
      [''template'', ''./chart'', ''--name'', ''r1'']"
    by (simp add: legacy_cmd_def release_opts_def template_args_def)
  ultimately show ?thesis by blast
qed

subsection \<open>Running the tool\<close>

lemma run_eq: "run c args w = RunWithRedactor (run_command c args (environ w)) redactor w"
  by (simp add: run_def run_command_def exec_Command_def Let_def)

lemma RunWithRedactor_frame:
  "launched (snd (RunWithRedactor cmd red w)) = launched w @ [cmd]"
  "created (snd (RunWithRedactor cmd red w)) = created w"
  "environ (snd (RunWithRedactor cmd red w)) = environ w"
  "removal_faults (snd (RunWithRedactor cmd red w)) = removal_faults w"
  by (simp_all add: RunWithRedactor_def split: prod.splits)

lemma run_frame:
  "launched (snd (run c args w)) = launched w @ [run_command c args (environ w)]"
  "created (snd (run c args w)) = created w"
  "environ (snd (run c args w)) = environ w"
  "removal_faults (snd (run c args w)) = removal_faults w"
  by (simp_all add: run_eq RunWithRedactor_frame)

lemma next_removal_frame:
  "fs (snd (next_removal w)) = fs w"
  "launched (snd (next_removal w)) = launched w"
  "created (snd (next_removal w)) = created w"
  "environ (snd (next_removal w)) = environ w"
  "process (snd (next_removal w)) = process w"
  by (simp_all add: next_removal_def split: list.splits)

lemma RemoveAll_frame:
  "launched (snd (RemoveAll p w)) = launched w"
  "created (snd (RemoveAll p w)) = created w"
  "environ (snd (RemoveAll p w)) = environ w"
  "process (snd (RemoveAll p w)) = process w"
  using next_removal_frame [of w]
  by (auto simp: RemoveAll_def split: prod.splits outcome.splits)

lemma RemoveAll_outside:
  "\<not> at_or_below p q \<Longrightarrow> fs (snd (RemoveAll p w)) q = fs w q"
  using next_removal_frame(1) [of w]
  by (auto simp: RemoveAll_def at_or_below_def split: prod.splits outcome.splits)

lemma RemoveAll_success:
  "p \<noteq> [] \<Longrightarrow> fst (RemoveAll p w) = None \<Longrightarrow>
   fs (snd (RemoveAll p w)) = (\<lambda>q. if at_or_below p q then None else fs w q)"
  using next_removal_frame(1) [of w]
  by (auto simp: RemoveAll_def split: prod.splits outcome.splits)

lemma RemoveAll_gone:
  "p \<noteq> [] \<Longrightarrow> fst (RemoveAll p w) = None \<Longrightarrow> fs (snd (RemoveAll p w)) p = None"
  by (simp add: RemoveAll_success at_or_below_def)

lemma RemoveAll_stays_gone: "fs w q = None \<Longrightarrow> fs (snd (RemoveAll p w)) q = None"
  using next_removal_frame(1) [of w]
  by (auto simp: RemoveAll_def split: prod.splits outcome.splits)

lemma RemoveAll_absent:
  assumes "\<forall>q. at_or_below p q \<longrightarrow> fs w q = None"
  shows "fs (snd (RemoveAll p w)) = fs w"
proof
  fix q
  show "fs (snd (RemoveAll p w)) q = fs w q"
  proof (cases "at_or_below p q")
    case True
    with assms have "fs w q = None" by simp
    then show ?thesis by (simp add: RemoveAll_stays_gone)
  next
    case False
    then show ?thesis by (rule RemoveAll_outside)
  qed
qed

lemma RemoveAll_no_faults:
  "removal_faults w = [] \<Longrightarrow> fst (RemoveAll p w) = None"
  "removal_faults w = [] \<Longrightarrow> removal_faults (snd (RemoveAll p w)) = []"
  by (simp_all add: RemoveAll_def next_removal_def)

text \<open>
  Claim C8, as stated: each of the four overrides points at a subdirectory of the
  session's home directory. The fourth, \<^verbatim>\<open>HELM_HOME\<close>, is the home directory itself.
\<close>

theorem run_home_override_counterexample:
  "env_value (last (Env (last (launched (snd (run legacy_cmd [''version''] quiet_world))))))
     = helmHome legacy_cmd \<and>
   \<not> below (helmHome legacy_cmd)
     (env_value (last (Env (last (launched (snd (run legacy_cmd [''version''] quiet_world)))))))"
  by (simp add: run_frame run_command_def env_value_def below_def strict_prefix_def
      legacy_cmd_def)

text \<open>
  Claim C8, amended. \<open>run\<close> starts one process: the profile's binary, with the
  given arguments, in the session's working directory, with the inherited
  environment followed by exactly four entries; \<^verbatim>\<open>XDG_CACHE_HOME\<close>, \<^verbatim>\<open>XDG_CONFIG_HOME\<close>
  and \<^verbatim>\<open>XDG_DATA_HOME\<close> point at the subdirectories \<^verbatim>\<open>cache\<close>, \<^verbatim>\<open>config\<close> and \<^verbatim>\<open>data\<close> of
  the session's home directory, and \<^verbatim>\<open>HELM_HOME\<close> at the home directory itself.
\<close>

theorem run_launches:
  "launched (snd (run c args w)) = launched w @
     [\<lparr>Path = binaryName c, Args = binaryName c # args, Dir = WorkDir c,
       Env = environ w @
        [''XDG_CACHE_HOME='' @ helmHome c @ ''/cache'',
         ''XDG_CONFIG_HOME='' @ helmHome c @ ''/config'',
         ''XDG_DATA_HOME='' @ helmHome c @ ''/data'',
         ''HELM_HOME='' @ helmHome c]\<rparr>] \<and>
   map env_value
        [''XDG_CACHE_HOME='' @ helmHome c @ ''/cache'',
         ''XDG_CONFIG_HOME='' @ helmHome c @ ''/config'',
         ''XDG_DATA_HOME='' @ helmHome c @ ''/data'',
         ''HELM_HOME='' @ helmHome c] =
     [helmHome c @ ''/cache'', helmHome c @ ''/config'', helmHome c @ ''/data'', helmHome c] \<and>
   below (helmHome c) (helmHome c @ ''/cache'') \<and>
   below (helmHome c) (helmHome c @ ''/config'') \<and>
   below (helmHome c) (helmHome c @ ''/data'')"
  by (simp add: run_frame run_command_def env_value_def below_def strict_prefix_def)

subsection \<open>Closing a session\<close>

text \<open>
  Claim C4, as stated: after \<open>Close\<close> every operation fails. The session keeps no
  record of being closed and no operation looks for one: after one \<open>Close\<close>, and
  after two, the operations start the tool and return its output.
\<close>

theorem Close_counterexample:
  "fst (dependencyBuild legacy_cmd (Close legacy_cmd quiet_world)) = Inr ''ok'' \<and>
   fst (Init legacy_cmd (Close legacy_cmd (Close legacy_cmd quiet_world))) = Inr ''ok''"
  by (simp add: dependencyBuild_def Init_def run_eq RunWithRedactor_def Close_def RemoveAll_def
      next_removal_def quiet_world_def legacy_cmd_def redactor.simps username_flag_def
      password_flag_def)

text \<open>
  Claim C4, amended. \<open>Close\<close> returns no error, whether the removal succeeds or not,
  and touches nothing but the file system at and below the home directory. When
  the removal succeeds, the home directory and everything below it are gone; when
  nothing is there to remove, \<open>Close\<close> leaves the file system as it is, so a second
  \<open>Close\<close> after a successful one changes nothing. No closed state is kept: an
  operation called after \<open>Close\<close> hands its command to the runner unchecked and
  starts the same process as it would have before, and \<open>Init\<close> on a profile without
  the init step still returns the empty output and no error.
\<close>

theorem Close_keeps_no_state:
  "(\<forall>q. \<not> at_or_below (helmHome c) q \<longrightarrow> fs (Close c w) q = fs w q) \<and>
   (helmHome c \<noteq> [] \<and> fst (RemoveAll (helmHome c) w) = None \<longrightarrow>
      (\<forall>q. at_or_below (helmHome c) q \<longrightarrow> fs (Close c w) q = None)) \<and>
   (removal_faults w = [] \<longrightarrow> fst (RemoveAll (helmHome c) w) = None) \<and>
   ((\<forall>q. at_or_below (helmHome c) q \<longrightarrow> fs w q = None) \<longrightarrow> fs (Close c w) = fs w) \<and>
   (fst (RemoveAll (helmHome c) w) = None \<longrightarrow> fs (Close c (Close c w)) = fs (Close c w)) \<and>
   launched (Close c w) = launched w \<and>
   created (Close c w) = created w \<and>
   environ (Close c w) = environ w \<and>
   process (Close c w) = process w \<and>
   run c args (Close c w) = RunWithRedactor (run_command c args (environ w)) redactor (Close c w) \<and>
   launched (snd (run c args (Close c w))) = launched (snd (run c args w)) \<and>
   launched (snd (run c args (Close c w))) = launched w @ [run_command c args (environ w)] \<and>
   launched (snd (dependencyBuild c (Close c w))) = launched (snd (dependencyBuild c w)) \<and>
   launched (snd (inspectValues c values (Close c w))) = launched (snd (inspectValues c values w)) \<and>
   launched (snd (template c chartPath opts ord (Close c w))) =
     launched (snd (template c chartPath opts ord w)) \<and>
   launched (snd (Init c (Close c w))) = launched (snd (Init c w)) \<and>
   Init (c\<lparr>initSupported := False\<rparr>) (Close c w) = (Inr [], Close c w)"
proof -
  have outside: "\<forall>q. \<not> at_or_below (helmHome c) q \<longrightarrow> fs (Close c w) q = fs w q"
    by (simp add: Close_def RemoveAll_outside)
  have removed: "helmHome c \<noteq> [] \<and> fst (RemoveAll (helmHome c) w) = None \<longrightarrow>
      (\<forall>q. at_or_below (helmHome c) q \<longrightarrow> fs (Close c w) q = None)"
    by (simp add: Close_def RemoveAll_success)
  have nofault: "removal_faults w = [] \<longrightarrow> fst (RemoveAll (helmHome c) w) = None"
    by (simp add: RemoveAll_no_faults)
  have absent: "(\<forall>q. at_or_below (helmHome c) q \<longrightarrow> fs w q = None) \<longrightarrow> fs (Close c w) = fs w"
    by (simp add: Close_def RemoveAll_absent)
  have again: "fst (RemoveAll (helmHome c) w) = None \<longrightarrow> fs (Close c (Close c w)) = fs (Close c w)"
  proof
    assume ok: "fst (RemoveAll (helmHome c) w) = None"
    show "fs (Close c (Close c w)) = fs (Close c w)"
    proof (cases "helmHome c = []")
      case True
      then show ?thesis by (simp add: Close_def RemoveAll_def)
    next
      case False
      with ok have "\<forall>q. at_or_below (helmHome c) q \<longrightarrow> fs (Close c w) q = None"
        by (simp add: Close_def RemoveAll_success)
      then show ?thesis
        unfolding Close_def by (rule RemoveAll_absent)
    qed
  qed
  have comps: "launched (Close c w) = launched w \<and> created (Close c w) = created w \<and>
      environ (Close c w) = environ w \<and> process (Close c w) = process w"
    by (simp add: Close_def RemoveAll_frame)
  have runs: "run c args (Close c w) =
      RunWithRedactor (run_command c args (environ w)) redactor (Close c w)"
    by (simp add: run_eq Close_def RemoveAll_frame)
  have ops: "launched (snd (run c args (Close c w))) = launched (snd (run c args w)) \<and>
   launched (snd (run c args (Close c w))) = launched w @ [run_command c args (environ w)] \<and>
   launched (snd (dependencyBuild c (Close c w))) = launched (snd (dependencyBuild c w)) \<and>
   launched (snd (inspectValues c values (Close c w))) = launched (snd (inspectValues c values w)) \<and>
   launched (snd (template c chartPath opts ord (Close c w))) =
     launched (snd (template c chartPath opts ord w)) \<and>
   launched (snd (Init c (Close c w))) = launched (snd (Init c w)) \<and>
   Init (c\<lparr>initSupported := False\<rparr>) (Close c w) = (Inr [], Close c w)"
    by (simp add: Close_def run_frame RemoveAll_frame dependencyBuild_def
        inspectValues_def template_def Init_def)
  from outside removed nofault absent again comps runs ops show ?thesis
    by blast
qed

lemma Close_home_world:
  "helmHome legacy_cmd \<noteq> [] \<and> fst (RemoveAll (helmHome legacy_cmd) home_world) = None"
  "at_or_below (helmHome legacy_cmd) ''/tmp/helm0''"
  "at_or_below (helmHome legacy_cmd) ''/tmp/helm0/cache''"
  "\<not> at_or_below (helmHome legacy_cmd) ''/work/Chart.yaml''"
  "fs home_world ''/work/Chart.yaml'' = Some (File ''x'')"
  "fs home_world ''/tmp/helm0/cache'' = Some Directory"
  "\<forall>q. at_or_below (helmHome legacy_cmd) q \<longrightarrow> fs quiet_world q = None"
  by (simp_all add: RemoveAll_def next_removal_def home_world_def quiet_world_def
      legacy_cmd_def at_or_below_def)

theorem Close_keeps_no_state_witness:
  "fs home_world ''/tmp/helm0/cache'' = Some Directory \<and>
   fs (Close legacy_cmd home_world) ''/tmp/helm0'' = None \<and>
   fs (Close legacy_cmd home_world) ''/tmp/helm0/cache'' = None \<and>
   fs (Close legacy_cmd home_world) ''/work/Chart.yaml'' = Some (File ''x'') \<and>
   fs (Close legacy_cmd (Close legacy_cmd home_world)) = fs (Close legacy_cmd home_world) \<and>
   fs (Close legacy_cmd quiet_world) = fs quiet_world"
proof -
  note t = Close_keeps_no_state [of legacy_cmd home_world]
  note q = Close_keeps_no_state [of legacy_cmd quiet_world]
  note outside = t [THEN conjunct1, rule_format]
  note removed = t [THEN conjunct2, THEN conjunct1, rule_format]
  note nofault = t [THEN conjunct2, THEN conjunct2, THEN conjunct1, rule_format]
  note again = t [THEN conjunct2, THEN conjunct2, THEN conjunct2, THEN conjunct2,
      THEN conjunct1, rule_format]
  note absent = q [THEN conjunct2, THEN conjunct2, THEN conjunct2, THEN conjunct1, rule_format]
  have ok: "fst (RemoveAll (helmHome legacy_cmd) home_world) = None"
    by (rule nofault) (simp add: home_world_def quiet_world_def)
  have "fs (Close legacy_cmd home_world) ''/work/Chart.yaml'' = Some (File ''x'')"
    using outside [OF Close_home_world(4)] Close_home_world(5) by simp
  moreover have "fs (Close legacy_cmd home_world) ''/tmp/helm0'' = None"
    by (rule removed [OF Close_home_world(1) Close_home_world(2)])
  moreover have "fs (Close legacy_cmd home_world) ''/tmp/helm0/cache'' = None"
    by (rule removed [OF Close_home_world(1) Close_home_world(3)])
  moreover have "fs (Close legacy_cmd (Close legacy_cmd home_world)) =
      fs (Close legacy_cmd home_world)"
    by (rule again) (rule ok)
  moreover have "fs (Close legacy_cmd quiet_world) = fs quiet_world"
    by (rule absent) (simp add: Close_home_world(7))
  ultimately show ?thesis using Close_home_world(6) by blast
qed

subsection \<open>Temporary files\<close>

lemma next_outcome_frame:
  "fs (snd (next_outcome w)) = fs w"
  "launched (snd (next_outcome w)) = launched w"
  "created (snd (next_outcome w)) = created w"
  "environ (snd (next_outcome w)) = environ w"
  "tempDir (snd (next_outcome w)) = tempDir w"
  "random_names (snd (next_outcome w)) = random_names w"
  "removal_faults (snd (next_outcome w)) = removal_faults w"
  by (simp_all add: next_outcome_def split: list.splits)

lemma first_free_Some:
  "first_free f base ns = Some (p, ns') \<Longrightarrow> f p = None \<and> prefix base p"
  by (induction ns) (auto split: if_splits)

lemma create_temp_Inr:
  assumes "create_temp nd dir pattern w = (Inr p, w1)"
  shows "fs w p = None" "CHR ''/'' \<in> set p" "created w1 = created w @ [p]"
    "launched w1 = launched w" "environ w1 = environ w" "fs w1 = (fs w)(p \<mapsto> nd)"
    "removal_faults w1 = removal_faults w"
proof -
  obtain o1 w0 where n: "next_outcome w = (o1, w0)" by (cases "next_outcome w")
  then have fr: "fs w0 = fs w" "launched w0 = launched w" "created w0 = created w"
    "environ w0 = environ w" "removal_faults w0 = removal_faults w"
    using next_outcome_frame [of w] by simp_all
  from assms n obtain ns where
    ff: "first_free (fs w0) (temp_base w0 dir pattern) (random_names w0) = Some (p, ns)"
    and w1: "w1 = w0\<lparr>fs := (fs w0)(p \<mapsto> nd), random_names := ns, created := created w0 @ [p]\<rparr>"
    by (auto simp: create_temp_def split: outcome.splits option.splits)
  from first_free_Some [OF ff] fr show "fs w p = None" by simp
  from first_free_Some [OF ff] have "set (temp_base w0 dir pattern) \<subseteq> set p"
    by (auto dest: set_mono_prefix)
  then show "CHR ''/'' \<in> set p" by (auto simp: temp_base_def)
  from w1 fr show "created w1 = created w @ [p]" "launched w1 = launched w"
    "environ w1 = environ w" "fs w1 = (fs w)(p \<mapsto> nd)" "removal_faults w1 = removal_faults w"
    by simp_all
qed

lemma create_temp_Inl:
  assumes "create_temp nd dir pattern w = (Inl e, w1)"
  shows "fs w1 = fs w" "created w1 = created w" "launched w1 = launched w"
    "environ w1 = environ w" "removal_faults w1 = removal_faults w"
proof -
  obtain o1 w0 where n: "next_outcome w = (o1, w0)" by (cases "next_outcome w")
  then have fr: "fs w0 = fs w" "launched w0 = launched w" "created w0 = created w"
    "environ w0 = environ w" "removal_faults w0 = removal_faults w"
    using next_outcome_frame [of w] by simp_all
  from assms n have "w1 = w0 \<or> w1 = w0\<lparr>random_names := []\<rparr>"
    by (auto simp: create_temp_def split: outcome.splits option.splits)
  with fr show "fs w1 = fs w" "created w1 = created w" "launched w1 = launched w"
    "environ w1 = environ w" "removal_faults w1 = removal_faults w"
    by auto
qed

lemma WriteFile_frame:
  "created (snd (WriteFile p data w)) = created w"
  "launched (snd (WriteFile p data w)) = launched w"
  "environ (snd (WriteFile p data w)) = environ w"
  "fs (snd (WriteFile p data w)) p \<noteq> None"
  "removal_faults (snd (WriteFile p data w)) = removal_faults w"
  by (simp_all add: WriteFile_def next_outcome_def split: list.splits outcome.splits)

lemma writeToTmp_Inr:
  assumes "writeToTmp data w = (Inr (p, cl), w1)"
  shows "cl = RemoveAllCloser p" "CHR ''/'' \<in> set p" "created w1 = created w @ [p]"
    "launched w1 = launched w" "environ w1 = environ w"
    "removal_faults w1 = removal_faults w"
proof -
  from assms obtain w0 where t: "TempFile [] [] w = (Inr p, w0)"
    and wr: "w1 = snd (WriteFile p data w0)" and cl: "cl = RemoveAllCloser p"
    by (auto simp: writeToTmp_def split: prod.splits sum.splits option.splits)
  from t have c: "create_temp (File []) [] [] w = (Inr p, w0)" by (simp add: TempFile_def)
  show "cl = RemoveAllCloser p" by (rule cl)
  show "CHR ''/'' \<in> set p" by (rule create_temp_Inr(2) [OF c])
  show "created w1 = created w @ [p]" "launched w1 = launched w" "environ w1 = environ w"
    "removal_faults w1 = removal_faults w"
    using create_temp_Inr(3-5,7) [OF c] by (simp_all add: wr WriteFile_frame)
qed

lemma writeToTmp_Inl:
  assumes "writeToTmp data w = (Inl e, w1)"
  shows "launched w1 = launched w" "environ w1 = environ w"
    "removal_faults w = [] \<Longrightarrow> removal_faults w1 = []"
    "removal_faults w = [] \<Longrightarrow> \<forall>p \<in> set (created w1). p \<in> set (created w) \<or> fs w1 p = None"
proof -
  have "launched w1 = launched w \<and> environ w1 = environ w \<and>
    (removal_faults w = [] \<longrightarrow> removal_faults w1 = [] \<and>
       (\<forall>p \<in> set (created w1). p \<in> set (created w) \<or> fs w1 p = None))"
  proof (cases "TempFile [] [] w")
    case (Pair r w0)
    show ?thesis
    proof (cases r)
      case (Inl e0)
      with Pair assms have "w1 = w0" by (simp add: writeToTmp_def)
      moreover from Pair Inl have "create_temp (File []) [] [] w = (Inl e0, w0)"
        by (simp add: TempFile_def)
      ultimately show ?thesis using create_temp_Inl by auto
    next
      case (Inr p)
      with Pair have c: "create_temp (File []) [] [] w = (Inr p, w0)"
        by (simp add: TempFile_def)
      let ?w2 = "snd (WriteFile p data w0)"
      from Pair Inr assms have w1: "w1 = snd (RemoveAll p ?w2)"
        by (auto simp: writeToTmp_def split: prod.splits option.splits)
      from create_temp_Inr(2) [OF c] have ne: "p \<noteq> []" by auto
      have r: "removal_faults ?w2 = removal_faults w"
        using create_temp_Inr(7) [OF c] by (simp add: WriteFile_frame)
      have "fs w1 p = None \<and> removal_faults w1 = []" if "removal_faults w = []"
        using that r ne by (simp add: w1 RemoveAll_gone RemoveAll_no_faults)
      then show ?thesis
        using create_temp_Inr(3-5) [OF c] by (simp add: w1 RemoveAll_frame WriteFile_frame)
    qed
  qed
  then show "launched w1 = launched w" "environ w1 = environ w"
    "removal_faults w = [] \<Longrightarrow> removal_faults w1 = []"
    "removal_faults w = [] \<Longrightarrow> \<forall>p \<in> set (created w1). p \<in> set (created w) \<or> fs w1 p = None"
    by simp_all
qed

lemma TempFile_failing_write_world:
  "TempFile [] [] failing_write_world =
     (Inr ''/tmp/1'', quiet_world\<lparr>fs := [''/tmp/1'' \<mapsto> File []], random_names := [''2'', ''3''],
        faults := [Failure 2], created := [''/tmp/1'']\<rparr>)"
  by (simp add: TempFile_def create_temp_def next_outcome_def failing_write_world_def
      quiet_world_def temp_base_def)

lemma TempFile_failing_removal_world:
  "TempFile [] [] failing_removal_world =
     (Inr ''/tmp/1'', quiet_world\<lparr>fs := [''/tmp/1'' \<mapsto> File []], random_names := [''2'', ''3''],
        faults := [Failure 2], removal_faults := [Failure 0], created := [''/tmp/1'']\<rparr>)"
  by (simp add: TempFile_def create_temp_def next_outcome_def failing_removal_world_def
      quiet_world_def temp_base_def)

text \<open>
  Claim C10, as stated: after a failed write the file is removed before the error
  is returned, so no partially written file is ever left behind. The removal can
  fail as well, and \<open>writeToTmp\<close> discards its error: when the write fails after two
  bytes and the removal fails, the file with the two bytes is still there when
  \<open>writeToTmp\<close> returns.
\<close>

theorem writeToTmp_removal_failure_counterexample:
  "fst (TempFile [] [] failing_removal_world) = Inr ''/tmp/1'' \<and>
   fst (WriteFile ''/tmp/1'' ''KEY'' (snd (TempFile [] [] failing_removal_world)))
     = Some (OSError ''write'') \<and>
   fst (writeToTmp ''KEY'' failing_removal_world) = Inl (OSError ''write'') \<and>
   fs (snd (writeToTmp ''KEY'' failing_removal_world)) ''/tmp/1'' = Some (File ''KE'')"
  by (simp add: writeToTmp_def TempFile_failing_removal_world WriteFile_def next_outcome_def
      quiet_world_def RemoveAll_def next_removal_def)

text \<open>
  Claim C10, amended. When \<open>writeToTmp\<close> has created its temporary file and the
  write to it fails, it returns the write error and no path or closer, after
  calling \<^verbatim>\<open>os.RemoveAll\<close> on the file, which the failed write left on disk; the file
  is gone when \<open>writeToTmp\<close> returns unless that removal fails.
\<close>

theorem writeToTmp_write_failure:
  "fst (TempFile [] [] w) = Inr file \<and>
   fst (WriteFile file data (snd (TempFile [] [] w))) = Some err \<longrightarrow>
     writeToTmp data w =
       (Inl err, snd (RemoveAll file (snd (WriteFile file data (snd (TempFile [] [] w)))))) \<and>
     file \<in> set (created (snd (writeToTmp data w))) \<and>
     fs (snd (WriteFile file data (snd (TempFile [] [] w)))) file \<noteq> None \<and>
     (fst (RemoveAll file (snd (WriteFile file data (snd (TempFile [] [] w))))) = None \<longrightarrow>
        fs (snd (writeToTmp data w)) file = None) \<and>
     (removal_faults w = [] \<longrightarrow> fs (snd (writeToTmp data w)) file = None)"
proof
  assume a: "fst (TempFile [] [] w) = Inr file \<and>
   fst (WriteFile file data (snd (TempFile [] [] w))) = Some err"
  define w1 where "w1 = snd (TempFile [] [] w)"
  define w2 where "w2 = snd (WriteFile file data w1)"
  from a have t: "TempFile [] [] w = (Inr file, w1)"
    by (simp add: w1_def prod_eq_iff)
  from a have wr: "WriteFile file data w1 = (Some err, w2)"
    by (simp add: w1_def w2_def prod_eq_iff)
  from t have c: "create_temp (File []) [] [] w = (Inr file, w1)" by (simp add: TempFile_def)
  from create_temp_Inr(2) [OF c] have ne: "file \<noteq> []" by auto
  have r: "writeToTmp data w = (Inl err, snd (RemoveAll file w2))"
    by (simp add: writeToTmp_def t wr)
  have cr: "file \<in> set (created (snd (RemoveAll file w2)))"
    using create_temp_Inr(3) [OF c] by (simp add: RemoveAll_frame w2_def WriteFile_frame)
  have there: "fs w2 file \<noteq> None"
    by (simp add: w2_def WriteFile_frame)
  have gone: "fs (snd (RemoveAll file w2)) file = None" if "fst (RemoveAll file w2) = None"
    using ne that by (rule RemoveAll_gone)
  have rf: "removal_faults w2 = removal_faults w"
    using create_temp_Inr(7) [OF c] by (simp add: w2_def WriteFile_frame)
  have gone': "fs (snd (RemoveAll file w2)) file = None" if "removal_faults w = []"
    using that rf by (intro gone RemoveAll_no_faults) simp
  from r cr there gone gone'
  show "writeToTmp data w =
       (Inl err, snd (RemoveAll file (snd (WriteFile file data (snd (TempFile [] [] w)))))) \<and>
     file \<in> set (created (snd (writeToTmp data w))) \<and>
     fs (snd (WriteFile file data (snd (TempFile [] [] w)))) file \<noteq> None \<and>
     (fst (RemoveAll file (snd (WriteFile file data (snd (TempFile [] [] w))))) = None \<longrightarrow>
        fs (snd (writeToTmp data w)) file = None) \<and>
     (removal_faults w = [] \<longrightarrow> fs (snd (writeToTmp data w)) file = None)"
    unfolding w2_def w1_def by simp
qed

theorem writeToTmp_write_failure_witness:
  "fst (TempFile [] [] failing_write_world) = Inr ''/tmp/1'' \<and>
   fs (snd (WriteFile ''/tmp/1'' ''KEY'' (snd (TempFile [] [] failing_write_world)))) ''/tmp/1''
     = Some (File ''KE'') \<and>
   removal_faults failing_write_world = [] \<and>
   fst (writeToTmp ''KEY'' failing_write_world) = Inl (OSError ''write'') \<and>
   fs (snd (writeToTmp ''KEY'' failing_write_world)) ''/tmp/1'' = None \<and>
   created (snd (writeToTmp ''KEY'' failing_write_world)) = [''/tmp/1'']"
proof -
  have h: "fst (TempFile [] [] failing_write_world) = Inr ''/tmp/1'' \<and>
      fst (WriteFile ''/tmp/1'' ''KEY'' (snd (TempFile [] [] failing_write_world)))
        = Some (OSError ''write'')"
    by (simp add: TempFile_failing_write_world WriteFile_def next_outcome_def quiet_world_def)
  have p: "fs (snd (WriteFile ''/tmp/1'' ''KEY'' (snd (TempFile [] [] failing_write_world))))
      ''/tmp/1'' = Some (File ''KE'')"
    by (simp add: TempFile_failing_write_world WriteFile_def next_outcome_def quiet_world_def)
  have n: "removal_faults failing_write_world = []"
    by (simp add: failing_write_world_def quiet_world_def)
  have c: "created (snd (writeToTmp ''KEY'' failing_write_world)) = [''/tmp/1'']"
    by (simp add: writeToTmp_def TempFile_failing_write_world WriteFile_def next_outcome_def
        quiet_world_def RemoveAll_def next_removal_def)
  note t = writeToTmp_write_failure [of failing_write_world "''/tmp/1''" "''KEY''"
      "OSError ''write''", rule_format, OF h]
  have "fst (writeToTmp ''KEY'' failing_write_world) = Inl (OSError ''write'')"
    using t [THEN conjunct1] by simp
  moreover have "fs (snd (writeToTmp ''KEY'' failing_write_world)) ''/tmp/1'' = None"
    using t [THEN conjunct2, THEN conjunct2, THEN conjunct2, THEN conjunct2] n by simp
  ultimately show ?thesis using h p n c by simp
qed

subsection \<open>Credential files of \<open>Fetch\<close> and \<open>RepoAdd\<close>\<close>

text \<open>
  \<open>Fetch\<close> releases what it acquires: when no removal fails, every temporary path
  created during a call is absent from the file system when the call returns,
  whatever the external process did and whichever other step failed.
\<close>

lemma util_Close_frame:
  "launched (util_Close cl w) = launched w"
  "created (util_Close cl w) = created w"
  "environ (util_Close cl w) = environ w"
  by (simp_all add: util_Close_def RemoveAll_frame split: closer.splits)

lemma Fetch_key_cleanup:
  assumes rf: "removal_faults w = []"
  shows "\<forall>p \<in> set (created (snd (Fetch_key c repo chartName creds args w))).
     p \<in> set (created w) \<or> fs (snd (Fetch_key c repo chartName creds args w)) p = None"
    and "removal_faults (snd (Fetch_key c repo chartName creds args w)) = []"
proof -
  let ?r = "snd (Fetch_key c repo chartName creds args w)"
  have "(\<forall>p \<in> set (created ?r). p \<in> set (created w) \<or> fs ?r p = None) \<and> removal_faults ?r = []"
  proof (cases "KeyData creds = []")
    case True
    with rf show ?thesis by (simp add: Fetch_key_def run_frame)
  next
    case False
    show ?thesis
    proof (cases "writeToTmp (KeyData creds) w")
      case (Pair r w1)
      show ?thesis
      proof (cases r)
        case (Inl e)
        with Pair have w: "writeToTmp (KeyData creds) w = (Inl e, w1)" by simp
        with False have "?r = w1" by (simp add: Fetch_key_def)
        with writeToTmp_Inl(3,4) [OF w rf] show ?thesis by simp
      next
        case (Inr pc)
        obtain p cl where pc: "pc = (p, cl)" by (cases pc)
        with Pair Inr have w: "writeToTmp (KeyData creds) w = (Inr (p, cl), w1)" by simp
        from writeToTmp_Inr(2) [OF w] have ne: "p \<noteq> []" by auto
        let ?w2 = "snd (run c (args @ [''--key-file'', p] @ [''--repo'', repo, chartName]) w1)"
        have r: "?r = snd (RemoveAll p ?w2)"
          using w False writeToTmp_Inr(1) [OF w]
          by (simp add: Fetch_key_def split_beta util_Close_def)
        have f2: "removal_faults ?w2 = []"
          using rf writeToTmp_Inr(6) [OF w] by (simp add: run_frame)
        have c2: "created ?w2 = created w @ [p]"
          using writeToTmp_Inr(3) [OF w] by (simp add: run_frame)
        show ?thesis
          unfolding r using ne f2 c2
          by (simp add: RemoveAll_frame RemoveAll_gone RemoveAll_no_faults)
      qed
    qed
  qed
  then show "\<forall>p \<in> set (created ?r). p \<in> set (created w) \<or> fs ?r p = None"
    and "removal_faults ?r = []"
    by simp_all
qed

lemma Fetch_cert_cleanup:
  assumes rf: "removal_faults w = []"
  shows "\<forall>p \<in> set (created (snd (Fetch_cert c repo chartName creds args w))).
     p \<in> set (created w) \<or> fs (snd (Fetch_cert c repo chartName creds args w)) p = None"
proof (cases "CertData creds = []")
  case True
  then show ?thesis using Fetch_key_cleanup(1) [OF rf] by (simp add: Fetch_cert_def)
next
  case False
  show ?thesis
  proof (cases "writeToTmp (CertData creds) w")
    case (Pair r w1)
    show ?thesis
    proof (cases r)
      case (Inl e)
      with Pair have w: "writeToTmp (CertData creds) w = (Inl e, w1)" by simp
      with False have "snd (Fetch_cert c repo chartName creds args w) = w1"
        by (simp add: Fetch_cert_def)
      with writeToTmp_Inl(4) [OF w rf] show ?thesis by simp
    next
      case (Inr pc)
      obtain p cl where pc: "pc = (p, cl)" by (cases pc)
      with Pair Inr have w: "writeToTmp (CertData creds) w = (Inr (p, cl), w1)" by simp
      from writeToTmp_Inr(2) [OF w] have ne: "p \<noteq> []" by auto
      have rf1: "removal_faults w1 = []"
        using rf writeToTmp_Inr(6) [OF w] by simp
      let ?w2 = "snd (Fetch_key c repo chartName creds (args @ [''--cert-file'', p]) w1)"
      have r: "snd (Fetch_cert c repo chartName creds args w) = snd (RemoveAll p ?w2)"
        using w False writeToTmp_Inr(1) [OF w]
        by (simp add: Fetch_cert_def split_beta util_Close_def)
      have k: "\<forall>q \<in> set (created ?w2). q \<in> set (created w1) \<or> fs ?w2 q = None"
        by (rule Fetch_key_cleanup(1) [OF rf1])
      have ok: "fst (RemoveAll p ?w2) = None"
        by (rule RemoveAll_no_faults(1) [OF Fetch_key_cleanup(2) [OF rf1]])
      show ?thesis
        unfolding r using k ne ok writeToTmp_Inr(3) [OF w]
        by (auto simp: RemoveAll_frame RemoveAll_gone RemoveAll_stays_gone)
    qed
  qed
qed

lemma Fetch_cleanup:
  "removal_faults w = [] \<Longrightarrow>
   \<forall>p \<in> set (created (snd (Fetch c repo chartName version destination creds w))).
     p \<in> set (created w) \<or>
     fs (snd (Fetch c repo chartName version destination creds w)) p = None"
  unfolding Fetch_def Let_def by (rule Fetch_cert_cleanup)

text \<open>
  Claim C1. Every transient file created for the certificate or the key should be
  gone when the operation returns. \<open>Fetch\<close> removes them (\<open>Fetch_cleanup\<close>). \<open>RepoAdd\<close>
  does not try to: it creates a temporary directory and defers its removal, but
  creates the two files next to that directory, not inside it, and never removes
  them. After a successful call, and after a call whose key write fails, with every
  removal succeeding, the certificate and key files are still on disk with the
  secret bytes in them.
\<close>

theorem RepoAdd_leaves_files:
  "fst (RepoAdd legacy_cmd ''stable'' ''https://example.com'' cert_creds quiet_world) = Inr ''ok'' \<and>
   created (snd (RepoAdd legacy_cmd ''stable'' ''https://example.com'' cert_creds quiet_world)) =
     [''/tmp/helm1'', ''/tmp/helm2'', ''/tmp/helm3''] \<and>
   fs (snd (RepoAdd legacy_cmd ''stable'' ''https://example.com'' cert_creds quiet_world))
     ''/tmp/helm1'' = None \<and>
   fs (snd (RepoAdd legacy_cmd ''stable'' ''https://example.com'' cert_creds quiet_world))
     ''/tmp/helm2'' = Some (File ''CERT'') \<and>
   fs (snd (RepoAdd legacy_cmd ''stable'' ''https://example.com'' cert_creds quiet_world))
     ''/tmp/helm3'' = Some (File ''KEY'') \<and>
   tl (Args (last (launched
     (snd (RepoAdd legacy_cmd ''stable'' ''https://example.com'' cert_creds quiet_world))))) =
     [''repo'', ''add'', ''--cert-file'', ''/tmp/helm2'', ''--key-file'', ''/tmp/helm3'',
      ''stable'', ''https://example.com''] \<and>
   fst (RepoAdd legacy_cmd ''stable'' ''https://example.com'' cert_creds
     (quiet_world\<lparr>faults := [Ok, Ok, Ok, Ok, Failure 1]\<rparr>)) = Inl (OSError ''write'') \<and>
   fs (snd (RepoAdd legacy_cmd ''stable'' ''https://example.com'' cert_creds
     (quiet_world\<lparr>faults := [Ok, Ok, Ok, Ok, Failure 1]\<rparr>))) ''/tmp/helm2''
     = Some (File ''CERT'') \<and>
   fs (snd (RepoAdd legacy_cmd ''stable'' ''https://example.com'' cert_creds
     (quiet_world\<lparr>faults := [Ok, Ok, Ok, Ok, Failure 1]\<rparr>))) ''/tmp/helm3''
     = Some (File ''K'')"
  by (simp add: RepoAdd_def RepoAdd_body_def TempDir_def TempFile_def create_temp_def
      next_outcome_def temp_base_def File_Write_def append_bytes_def run_eq run_command_def
      RunWithRedactor_def RemoveAll_def next_removal_def at_or_below_def quiet_world_def
      cert_creds_def legacy_cmd_def redactor.simps username_flag_def password_flag_def)

subsection \<open>The argument list of \<open>Fetch\<close>\<close>

lemma new_launched_append: "launched w' = launched w @ xs \<Longrightarrow> new_launched w w' = xs"
  by (simp add: new_launched_def)

lemma writeToTmp_not_isl:
  assumes "\<not> isl (fst (writeToTmp data w))"
  shows "\<exists>p cl w1. writeToTmp data w = (Inr (p, cl), w1)"
proof -
  obtain r w1 where rw: "writeToTmp data w = (r, w1)" by (cases "writeToTmp data w")
  with assms obtain pc where "r = Inr pc" by (cases r) auto
  moreover obtain p cl where "pc = (p, cl)" by (cases pc)
  ultimately show ?thesis using rw by blast
qed

lemma Fetch_key_ok:
  assumes "KeyData creds = [] \<or> \<not> isl (fst (writeToTmp (KeyData creds) w))"
  shows "\<exists>kf. file_flag ''--key-file'' (KeyData creds) kf \<and>
      launched (snd (Fetch_key c repo chartName creds args w)) =
        launched w @ [run_command c (args @ kf @ [''--repo'', repo, chartName]) (environ w)]"
proof (cases "KeyData creds = []")
  case True
  then have "launched (snd (Fetch_key c repo chartName creds args w)) =
      launched w @ [run_command c (args @ [] @ [''--repo'', repo, chartName]) (environ w)]"
    by (simp add: Fetch_key_def run_frame)
  moreover have "file_flag ''--key-file'' (KeyData creds) []"
    using True by (simp add: file_flag_def)
  ultimately show ?thesis by blast
next
  case False
  with assms have "\<not> isl (fst (writeToTmp (KeyData creds) w))" by simp
  from writeToTmp_not_isl [OF this]
  obtain p cl w1 where w: "writeToTmp (KeyData creds) w = (Inr (p, cl), w1)" by blast
  have "launched (snd (Fetch_key c repo chartName creds args w)) = launched w @
      [run_command c (args @ [''--key-file'', p] @ [''--repo'', repo, chartName]) (environ w)]"
    using w False writeToTmp_Inr(4,5) [OF w]
    by (simp add: Fetch_key_def split_beta util_Close_frame run_frame)
  moreover have "file_flag ''--key-file'' (KeyData creds) [''--key-file'', p]"
    using False writeToTmp_Inr(2) [OF w] by (simp add: file_flag_def)
  ultimately show ?thesis by blast
qed

lemma Fetch_key_fail:
  assumes "KeyData creds \<noteq> []" "isl (fst (writeToTmp (KeyData creds) w))"
  shows "launched (snd (Fetch_key c repo chartName creds args w)) = launched w \<and>
    isl (fst (Fetch_key c repo chartName creds args w))"
proof -
  from assms(2) obtain e w1 where w: "writeToTmp (KeyData creds) w = (Inl e, w1)"
    by (cases "writeToTmp (KeyData creds) w") (auto simp: isl_def)
  with assms(1) writeToTmp_Inl(1) [OF w] show ?thesis
    by (simp add: Fetch_key_def)
qed

lemma Fetch_cert_ok:
  assumes "temp_files_written creds w"
  shows "\<exists>cf kf. file_flag ''--cert-file'' (CertData creds) cf \<and>
      file_flag ''--key-file'' (KeyData creds) kf \<and>
      launched (snd (Fetch_cert c repo chartName creds args w)) =
        launched w @ [run_command c (args @ cf @ kf @ [''--repo'', repo, chartName]) (environ w)]"
proof (cases "CertData creds = []")
  case True
  with assms have "KeyData creds = [] \<or> \<not> isl (fst (writeToTmp (KeyData creds) w))"
    by (simp add: temp_files_written_def cert_world_def)
  from Fetch_key_ok [OF this, of c repo chartName args] obtain kf where
    "file_flag ''--key-file'' (KeyData creds) kf"
    "launched (snd (Fetch_cert c repo chartName creds args w)) =
        launched w @ [run_command c (args @ [] @ kf @ [''--repo'', repo, chartName]) (environ w)]"
    using True by (auto simp: Fetch_cert_def)
  moreover have "file_flag ''--cert-file'' (CertData creds) []"
    using True by (simp add: file_flag_def)
  ultimately show ?thesis by blast
next
  case False
  with assms have "\<not> isl (fst (writeToTmp (CertData creds) w))"
    by (simp add: temp_files_written_def)
  from writeToTmp_not_isl [OF this]
  obtain p cl w1 where w: "writeToTmp (CertData creds) w = (Inr (p, cl), w1)" by blast
  with False assms have k: "KeyData creds = [] \<or> \<not> isl (fst (writeToTmp (KeyData creds) w1))"
    by (simp add: temp_files_written_def cert_world_def)
  let ?k = "Fetch_key c repo chartName creds (args @ [''--cert-file'', p]) w1"
  have r: "launched (snd (Fetch_cert c repo chartName creds args w)) = launched (snd ?k)"
    using w False by (simp add: Fetch_cert_def split_beta util_Close_frame)
  from Fetch_key_ok [OF k, of c repo chartName "args @ [''--cert-file'', p]"] obtain kf where
    "file_flag ''--key-file'' (KeyData creds) kf"
    "launched (snd (Fetch_cert c repo chartName creds args w)) = launched w @
       [run_command c (args @ [''--cert-file'', p] @ kf @ [''--repo'', repo, chartName])
         (environ w)]"
    using r writeToTmp_Inr(4,5) [OF w] by auto
  moreover have "file_flag ''--cert-file'' (CertData creds) [''--cert-file'', p]"
    using False writeToTmp_Inr(2) [OF w] by (simp add: file_flag_def)
  ultimately show ?thesis by blast
qed

lemma Fetch_cert_fail:
  assumes "\<not> temp_files_written creds w"
  shows "launched (snd (Fetch_cert c repo chartName creds args w)) = launched w \<and>
    isl (fst (Fetch_cert c repo chartName creds args w))"
proof (cases "CertData creds = []")
  case True
  with assms have "KeyData creds \<noteq> []" "isl (fst (writeToTmp (KeyData creds) w))"
    by (simp_all add: temp_files_written_def cert_world_def)
  from Fetch_key_fail [OF this] True show ?thesis
    by (simp add: Fetch_cert_def)
next
  case False
  show ?thesis
  proof (cases "writeToTmp (CertData creds) w")
    case (Pair r w1)
    show ?thesis
    proof (cases r)
      case (Inl e)
      with Pair have w: "writeToTmp (CertData creds) w = (Inl e, w1)" by simp
      with False writeToTmp_Inl(1) [OF w] show ?thesis
        by (simp add: Fetch_cert_def)
    next
      case (Inr pc)
      obtain p cl where pc: "pc = (p, cl)" by (cases pc)
      with Pair Inr have w: "writeToTmp (CertData creds) w = (Inr (p, cl), w1)" by simp
      with False assms have k: "KeyData creds \<noteq> []" "isl (fst (writeToTmp (KeyData creds) w1))"
        by (simp_all add: temp_files_written_def cert_world_def)
      let ?k = "Fetch_key c repo chartName creds (args @ [''--cert-file'', p]) w1"
      have "launched (snd (Fetch_cert c repo chartName creds args w)) = launched (snd ?k)"
        "fst (Fetch_cert c repo chartName creds args w) = fst ?k"
        using w False by (simp_all add: Fetch_cert_def split_beta util_Close_frame)
      with Fetch_key_fail [OF k, of c repo chartName "args @ [''--cert-file'', p]"]
        writeToTmp_Inr(4) [OF w]
      show ?thesis by simp
    qed
  qed
qed

lemma writeToTmp_fresh:
  assumes "faults w = []" "random_names w = n # ns" "fs w (tempDir w @ ''/'' @ n) = None"
  shows "\<not> isl (fst (writeToTmp data w))"
    and "faults (snd (writeToTmp data w)) = []"
    and "random_names (snd (writeToTmp data w)) = ns"
    and "tempDir (snd (writeToTmp data w)) = tempDir w"
    and "fs (snd (writeToTmp data w)) = (fs w)(tempDir w @ ''/'' @ n \<mapsto> File data)"
  using assms
  by (simp_all add: writeToTmp_def TempFile_def create_temp_def next_outcome_def temp_base_def
      WriteFile_def)

lemma temp_files_written_fresh:
  assumes "faults w = []" "random_names w = n1 # n2 # ns" "n1 \<noteq> n2"
    "fs w (tempDir w @ ''/'' @ n1) = None" "fs w (tempDir w @ ''/'' @ n2) = None"
  shows "temp_files_written creds w"
proof (cases "CertData creds = []")
  case True
  with writeToTmp_fresh(1) [OF assms(1,2,4)] show ?thesis
    by (simp add: temp_files_written_def cert_world_def)
next
  case False
  let ?w1 = "snd (writeToTmp (CertData creds) w)"
  have "\<not> isl (fst (writeToTmp (KeyData creds) ?w1))"
  proof (rule writeToTmp_fresh(1))
    show "faults ?w1 = []" by (rule writeToTmp_fresh(2) [OF assms(1,2,4)])
    show "random_names ?w1 = n2 # ns" by (rule writeToTmp_fresh(3) [OF assms(1,2,4)])
    show "fs ?w1 (tempDir ?w1 @ ''/'' @ n2) = None"
      using assms(3,5)
      by (simp add: writeToTmp_fresh(4,5) [OF assms(1,2,4)])
  qed
  with False writeToTmp_fresh(1) [OF assms(1,2,4)] show ?thesis
    by (simp add: temp_files_written_def cert_world_def)
qed

lemma file_flag_no_version:
  "file_flag flag data fl \<Longrightarrow> flag \<noteq> ''--version'' \<Longrightarrow> ''--version'' \<notin> set fl"
  by (auto simp: file_flag_def)

text \<open>
  Claim C6. When no temporary-file step fails, and so always when the credentials
  carry no certificate and no key, or when no fault is pending and the next two
  temporary names are free, \<open>Fetch\<close> starts exactly one process, whose
  argument list is the pull command and the destination pair, then the pair
  \<^verbatim>\<open>--version <version>\<close> if the version is not empty and nothing if it is, then the
  credential flags, then the trailing \<^verbatim>\<open>--repo <repo> <chartName>\<close>. When no value the
  caller supplies is the literal \<^verbatim>\<open>--version\<close>, that token occurs once in the list in
  the first case and not at all in the second. When a temporary-file step fails,
  \<open>Fetch\<close> returns an error and starts nothing.
\<close>

theorem Fetch_version_flag:
  "(temp_files_written creds w \<longrightarrow>
     (\<exists>cmd cf kf.
        new_launched w (snd (Fetch c repo chartName version destination creds w)) = [cmd] \<and>
        tl (Args cmd) =
          [pullCommand c, ''--destination'', destination]
          @ (if version = [] then [] else [''--version'', version])
          @ (if Username creds = [] then [] else [''--username'', Username creds])
          @ (if Password creds = [] then [] else [''--password'', Password creds])
          @ (if CAPath creds = [] then [] else [''--ca-file'', CAPath creds])
          @ cf @ kf @ [''--repo'', repo, chartName] \<and>
        file_flag ''--cert-file'' (CertData creds) cf \<and>
        file_flag ''--key-file'' (KeyData creds) kf \<and>
        (''--version'' \<notin> {pullCommand c, destination, version, repo, chartName,
            Username creds, Password creds, CAPath creds} \<longrightarrow>
          count_list (tl (Args cmd)) ''--version'' = (if version = [] then 0 else 1)))) \<and>
   (\<not> temp_files_written creds w \<longrightarrow>
      new_launched w (snd (Fetch c repo chartName version destination creds w)) = [] \<and>
      isl (fst (Fetch c repo chartName version destination creds w))) \<and>
   (CertData creds = [] \<and> KeyData creds = [] \<longrightarrow> temp_files_written creds w) \<and>
   (faults w = [] \<and> 2 \<le> length (random_names w) \<and>
    random_names w ! 0 \<noteq> random_names w ! 1 \<and>
    fs w (tempDir w @ ''/'' @ random_names w ! 0) = None \<and>
    fs w (tempDir w @ ''/'' @ random_names w ! 1) = None \<longrightarrow>
      temp_files_written creds w)"
proof (intro conjI impI)
  let ?pre = "[pullCommand c, ''--destination'', destination]"
  let ?ver = "if version = [] then [] else [''--version'', version]"
  let ?u = "if Username creds = [] then [] else [''--username'', Username creds]"
  let ?p = "if Password creds = [] then [] else [''--password'', Password creds]"
  let ?ca = "if CAPath creds = [] then [] else [''--ca-file'', CAPath creds]"
  let ?F = "Fetch c repo chartName version destination creds w"
  let ?H = "''--version'' \<notin> {pullCommand c, destination, version, repo, chartName,
          Username creds, Password creds, CAPath creds}"
  have F: "?F = Fetch_cert c repo chartName creds (?pre @ ?ver @ ?u @ ?p @ ?ca) w"
    by (simp add: Fetch_def)
  {
    assume "\<not> temp_files_written creds w"
    from Fetch_cert_fail [OF this, of c repo chartName "?pre @ ?ver @ ?u @ ?p @ ?ca"]
    show "new_launched w (snd ?F) = []" and "isl (fst ?F)"
      unfolding F by (simp_all add: new_launched_def)
  }
  {
    assume "CertData creds = [] \<and> KeyData creds = []"
    then show "temp_files_written creds w"
      by (simp add: temp_files_written_def)
  }
  {
    assume a: "faults w = [] \<and> 2 \<le> length (random_names w) \<and>
      random_names w ! 0 \<noteq> random_names w ! 1 \<and>
      fs w (tempDir w @ ''/'' @ random_names w ! 0) = None \<and>
      fs w (tempDir w @ ''/'' @ random_names w ! 1) = None"
    then obtain n1 n2 ns where r: "random_names w = n1 # n2 # ns"
      by (cases "random_names w"; cases "tl (random_names w)") auto
    with a show "temp_files_written creds w"
      by (intro temp_files_written_fresh [of w n1 n2 ns]) simp_all
  }
  assume ok: "temp_files_written creds w"
  from Fetch_cert_ok [OF ok, of c repo chartName "?pre @ ?ver @ ?u @ ?p @ ?ca"]
  obtain cf kf where cf: "file_flag ''--cert-file'' (CertData creds) cf"
    and kf: "file_flag ''--key-file'' (KeyData creds) kf"
    and l: "launched (snd ?F) = launched w @
      [run_command c ((?pre @ ?ver @ ?u @ ?p @ ?ca) @ cf @ kf @ [''--repo'', repo, chartName])
        (environ w)]"
    unfolding F by blast
  let ?mid = "?u @ ?p @ ?ca @ cf @ kf"
  let ?cmd = "run_command c ((?pre @ ?ver @ ?u @ ?p @ ?ca) @ cf @ kf @ [''--repo'', repo, chartName])
        (environ w)"
  from l have n: "new_launched w (snd ?F) = [?cmd]"
    by (rule new_launched_append)
  have t: "tl (Args ?cmd) = ?pre @ ?ver @ ?u @ ?p @ ?ca @ cf @ kf @ [''--repo'', repo, chartName]"
    by (simp add: run_command_def)
  have cnt: "count_list (tl (Args ?cmd)) ''--version'' = (if version = [] then 0 else 1)" if a: ?H
  proof -
    have m: "''--version'' \<notin> set ?mid"
      using a file_flag_no_version [OF cf] file_flag_no_version [OF kf] by auto
    have "count_list (?pre @ ?ver @ ?mid @ [''--repo'', repo, chartName]) ''--version'' =
        count_list ?pre ''--version'' + count_list ?ver ''--version''
        + count_list ?mid ''--version'' + count_list [''--repo'', repo, chartName] ''--version''"
      by (simp only: count_list_append add.assoc)
    also have "count_list ?mid ''--version'' = 0"
      using m by (simp only: count_list_0_iff not_False_eq_True)
    also have "count_list ?pre ''--version'' = 0"
      using a by auto
    also have "count_list [''--repo'', repo, chartName] ''--version'' = 0"
      using a by auto
    also have "count_list ?ver ''--version'' = (if version = [] then 0 else 1)"
      using a by auto
    finally show ?thesis
      unfolding t by simp
  qed
  from n t cf kf cnt
  show "\<exists>cmd cf kf.
        new_launched w (snd ?F) = [cmd] \<and>
        tl (Args cmd) = ?pre @ ?ver @ ?u @ ?p @ ?ca @ cf @ kf @ [''--repo'', repo, chartName] \<and>
        file_flag ''--cert-file'' (CertData creds) cf \<and>
        file_flag ''--key-file'' (KeyData creds) kf \<and>
        (?H \<longrightarrow> count_list (tl (Args cmd)) ''--version'' = (if version = [] then 0 else 1))"
    by blast
qed

lemma Fetch_example:
  "fst (Fetch legacy_cmd ''https://charts.example.com'' ''redis'' ''1.2.3'' ''/charts'' cert_creds
     quiet_world) = Inr ''ok''"
  "launched (snd (Fetch legacy_cmd ''https://charts.example.com'' ''redis'' ''1.2.3'' ''/charts''
     cert_creds quiet_world)) =
     [run_command legacy_cmd
        [''fetch'', ''--destination'', ''/charts'', ''--version'', ''1.2.3'',
         ''--cert-file'', ''/tmp/1'', ''--key-file'', ''/tmp/2'',
         ''--repo'', ''https://charts.example.com'', ''redis''] [''PATH=/usr/bin'']]"
  "created (snd (Fetch legacy_cmd ''https://charts.example.com'' ''redis'' ''1.2.3'' ''/charts''
     cert_creds quiet_world)) = [''/tmp/1'', ''/tmp/2'']"
  "fs (snd (Fetch legacy_cmd ''https://charts.example.com'' ''redis'' ''1.2.3'' ''/charts''
     cert_creds quiet_world)) ''/tmp/1'' = None"
  "fs (snd (Fetch legacy_cmd ''https://charts.example.com'' ''redis'' ''1.2.3'' ''/charts''
     cert_creds quiet_world)) ''/tmp/2'' = None"
  "launched (snd (Fetch legacy_cmd ''https://charts.example.com'' ''redis'' [] ''/charts''
     cert_creds quiet_world)) =
     [run_command legacy_cmd
        [''fetch'', ''--destination'', ''/charts'',
         ''--cert-file'', ''/tmp/1'', ''--key-file'', ''/tmp/2'',
         ''--repo'', ''https://charts.example.com'', ''redis''] [''PATH=/usr/bin'']]"
  by (simp_all add: Fetch_def Fetch_cert_def Fetch_key_def writeToTmp_def TempFile_def
      create_temp_def next_outcome_def temp_base_def WriteFile_def run_eq run_command_def
      RunWithRedactor_def util_Close_def RemoveAll_def next_removal_def at_or_below_def
      quiet_world_def cert_creds_def legacy_cmd_def redactor.simps username_flag_def
      password_flag_def Let_def)

lemma temp_files_written_example:
  "temp_files_written cert_creds quiet_world"
  "\<not> temp_files_written cert_creds (quiet_world\<lparr>faults := [Failure 0]\<rparr>)"
  by (simp_all add: temp_files_written_def cert_world_def writeToTmp_def TempFile_def
      create_temp_def next_outcome_def temp_base_def WriteFile_def quiet_world_def
      cert_creds_def)

theorem Fetch_version_flag_witness:
  "temp_files_written cert_creds quiet_world \<and>
   new_launched quiet_world (snd (Fetch legacy_cmd ''https://charts.example.com'' ''redis''
     ''1.2.3'' ''/charts'' cert_creds quiet_world)) =
     [run_command legacy_cmd
        [''fetch'', ''--destination'', ''/charts'', ''--version'', ''1.2.3'',
         ''--cert-file'', ''/tmp/1'', ''--key-file'', ''/tmp/2'',
         ''--repo'', ''https://charts.example.com'', ''redis''] [''PATH=/usr/bin'']] \<and>
   count_list [''fetch'', ''--destination'', ''/charts'', ''--version'', ''1.2.3'',
         ''--cert-file'', ''/tmp/1'', ''--key-file'', ''/tmp/2'',
         ''--repo'', ''https://charts.example.com'', ''redis''] ''--version'' = 1 \<and>
   new_launched quiet_world (snd (Fetch legacy_cmd ''https://charts.example.com'' ''redis''
     [] ''/charts'' cert_creds quiet_world)) =
     [run_command legacy_cmd
        [''fetch'', ''--destination'', ''/charts'',
         ''--cert-file'', ''/tmp/1'', ''--key-file'', ''/tmp/2'',
         ''--repo'', ''https://charts.example.com'', ''redis''] [''PATH=/usr/bin'']] \<and>
   \<not> temp_files_written cert_creds (quiet_world\<lparr>faults := [Failure 0]\<rparr>) \<and>
   new_launched (quiet_world\<lparr>faults := [Failure 0]\<rparr>)
     (snd (Fetch legacy_cmd ''https://charts.example.com'' ''redis'' ''1.2.3'' ''/charts''
       cert_creds (quiet_world\<lparr>faults := [Failure 0]\<rparr>))) = [] \<and>
   isl (fst (Fetch legacy_cmd ''https://charts.example.com'' ''redis'' ''1.2.3'' ''/charts''
       cert_creds (quiet_world\<lparr>faults := [Failure 0]\<rparr>))) \<and>
   temp_files_written (cert_creds\<lparr>CertData := [], KeyData := []\<rparr>)
     (quiet_world\<lparr>faults := [Failure 0]\<rparr>)"
proof -
  let ?cmd = "run_command legacy_cmd
        [''fetch'', ''--destination'', ''/charts'', ''--version'', ''1.2.3'',
         ''--cert-file'', ''/tmp/1'', ''--key-file'', ''/tmp/2'',
         ''--repo'', ''https://charts.example.com'', ''redis''] [''PATH=/usr/bin'']"
  let ?bad = "quiet_world\<lparr>faults := [Failure 0]\<rparr>"
  let ?plain = "cert_creds\<lparr>CertData := [], KeyData := []\<rparr>"
  note good = Fetch_version_flag [where creds = cert_creds and w = quiet_world
      and c = legacy_cmd and repo = "''https://charts.example.com''" and chartName = "''redis''"
      and version = "''1.2.3''" and destination = "''/charts''"]
  note bad = Fetch_version_flag [where creds = cert_creds and w = ?bad
      and c = legacy_cmd and repo = "''https://charts.example.com''" and chartName = "''redis''"
      and version = "''1.2.3''" and destination = "''/charts''"]
  note plain = Fetch_version_flag [where creds = ?plain and w = ?bad
      and c = legacy_cmd and repo = "''https://charts.example.com''" and chartName = "''redis''"
      and version = "''1.2.3''" and destination = "''/charts''"]
  have h: "''--version'' \<notin> {pullCommand legacy_cmd, ''/charts'', ''1.2.3'',
      ''https://charts.example.com'', ''redis'',
      Username cert_creds, Password cert_creds, CAPath cert_creds}"
    by (simp add: legacy_cmd_def cert_creds_def)
  have e: "new_launched quiet_world (snd (Fetch legacy_cmd ''https://charts.example.com''
      ''redis'' ''1.2.3'' ''/charts'' cert_creds quiet_world)) = [?cmd]"
    by (simp only: new_launched_def Fetch_example(2)) (simp add: quiet_world_def)
  from good [THEN conjunct1, rule_format, OF temp_files_written_example(1)] h e
  have "count_list (tl (Args ?cmd)) ''--version'' = (if ''1.2.3'' = [] then 0 else (1::nat))"
    by auto
  then have "count_list [''fetch'', ''--destination'', ''/charts'', ''--version'', ''1.2.3'',
         ''--cert-file'', ''/tmp/1'', ''--key-file'', ''/tmp/2'',
         ''--repo'', ''https://charts.example.com'', ''redis''] ''--version'' = 1"
    by (simp add: run_command_def)
  moreover have "new_launched quiet_world (snd (Fetch legacy_cmd ''https://charts.example.com''
      ''redis'' [] ''/charts'' cert_creds quiet_world)) =
     [run_command legacy_cmd
        [''fetch'', ''--destination'', ''/charts'',
         ''--cert-file'', ''/tmp/1'', ''--key-file'', ''/tmp/2'',
         ''--repo'', ''https://charts.example.com'', ''redis''] [''PATH=/usr/bin'']]"
    by (simp only: new_launched_def Fetch_example(6)) (simp add: quiet_world_def)
  moreover have "new_launched ?bad
     (snd (Fetch legacy_cmd ''https://charts.example.com'' ''redis'' ''1.2.3'' ''/charts''
       cert_creds ?bad)) = [] \<and>
     isl (fst (Fetch legacy_cmd ''https://charts.example.com'' ''redis'' ''1.2.3'' ''/charts''
       cert_creds ?bad))"
    by (rule bad [THEN conjunct2, THEN conjunct1, rule_format,
          OF temp_files_written_example(2)])
  moreover have "temp_files_written ?plain ?bad"
    by (rule plain [THEN conjunct2, THEN conjunct2, THEN conjunct1, rule_format])
      (simp add: cert_creds_def)
  moreover have "temp_files_written cert_creds quiet_world"
    by (rule good [THEN conjunct2, THEN conjunct2, THEN conjunct2, rule_format])
      (simp add: quiet_world_def)
  ultimately show ?thesis
    using e temp_files_written_example by blast
qed

end
